theory Spec2Isabelle
  imports Main "HOL-Library.AList"
begin

section \<open>Data model (types.ts)\<close>

text \<open>
  The interfaces of \<^verbatim>\<open>types.ts\<close> become records, the string unions become datatypes.
  Record fields are global constants in HOL, so the fields that several interfaces share
  carry a prefix: \<open>rid\<close>, \<open>sid\<close> and \<open>aid\<close> are the \<^verbatim>\<open>id\<close> of a rubric item, a
  student and an assessment, \<open>qtype\<close> is \<^verbatim>\<open>RubricItem.type\<close>, \<open>astatus\<close> is
  \<^verbatim>\<open>Assessment.status\<close>, \<open>res_score\<close>, \<open>res_comment\<close> and \<open>res_studentAnswer\<close> are
  the fields of \<^verbatim>\<open>AiGradingResult\<close>.

  Numbers are JavaScript numbers in the source. The model takes point values, suggested
  scores and page numbers to be whole numbers (type \<open>int\<close>), the range on which
  JavaScript's arithmetic is exact. A number that a handler computes can also be
  \<^verbatim>\<open>NaN\<close>: the total of a student is an \<open>int option\<close>, \<open>None\<close> standing for \<^verbatim>\<open>NaN\<close>.
  Strings are lists of characters; the development uses only their equality, their
  emptiness and the two functions of the section on strings.

  An optional field (\<^verbatim>\<open>correctAnswer?\<close>) is an \<open>option\<close>, \<open>None\<close> standing for
  \<^verbatim>\<open>undefined\<close>. The type \<^verbatim>\<open>QuestionGrade\<close> declares \<^verbatim>\<open>score\<close> and \<^verbatim>\<open>comment\<close> as
  required, but an object that \<^verbatim>\<open>handleGradeChange\<close> stores can lack them (see
  \<open>currentGradeOf\<close>), so every field of a grade is an \<open>option\<close>.
\<close>

datatype AssessmentStatus = DRAFT | READY | GRADING | COMPLETED

datatype QuestionType = FRQ | MCQ

datatype SubmissionStatus = PENDING | GRADED

record RubricItem =
  rid :: string
  question :: string
  maxPoints :: int
  criteria :: string
  qtype :: QuestionType
  correctAnswer :: "string option"

record QuestionGrade =
  score :: "int option"
  comment :: "string option"
  studentAnswer :: "string option"
  isAiSuggested :: "bool option"

text \<open>
  \<^verbatim>\<open>Record<string, QuestionGrade>\<close> is a JavaScript object. \<open>own\<close> holds its own
  properties in the order in which JavaScript enumerates them (\<open>map snd\<close> of it is
  \<^verbatim>\<open>Object.values\<close>). \<open>proto\<close> is \<open>None\<close> when the prototype of the object is
  \<^verbatim>\<open>Object.prototype\<close>, as for an object literal or a spread, and \<open>Some G\<close> when an
  assignment to the key \<^verbatim>\<open>__proto__\<close> has made the grade \<open>G\<close> its prototype.
\<close>

record GradesObject =
  own :: "(string \<times> QuestionGrade) list"
  proto :: "QuestionGrade option"

record StudentSubmission =
  sid :: string
  studentName :: string
  fileData :: "string option"
  fileType :: string
  fileName :: string
  grades :: GradesObject
  status :: SubmissionStatus
  totalScore :: "int option"

record Assessment =
  aid :: string
  title :: string
  description :: string
  astatus :: AssessmentStatus
  rubric :: "RubricItem list"
  students :: "StudentSubmission list"
  cannedComments :: "string list"
  created :: int

record AiGradingResult =
  questionId :: string
  res_score :: int
  res_comment :: string
  res_studentAnswer :: "string option"

text \<open>
  \<^verbatim>\<open>Partial<QuestionGrade>\<close>: every field may be missing. For \<^verbatim>\<open>studentAnswer\<close> the
  source tells a missing key (\<^verbatim>\<open>'studentAnswer' in gradeData\<close> is false, here \<open>None\<close>)
  from a key that is there with the value \<^verbatim>\<open>undefined\<close> (here \<open>Some None\<close>).
\<close>

record GradeUpdate =
  u_score :: "int option"
  u_comment :: "string option"
  u_studentAnswer :: "string option option"
  u_isAiSuggested :: "bool option"

text \<open>Errors are values: \<^verbatim>\<open>new Error(msg)\<close>, or whatever a library call throws.\<close>

datatype error = Error string | TypeError string

section \<open>Strings\<close>

text \<open>
  \<^verbatim>\<open>String.prototype.trim\<close> and \<^verbatim>\<open>String.prototype.toUpperCase\<close> belong to the JavaScript
  runtime and follow the Unicode tables. The handlers take the two functions as the
  parameter \<open>js\<close>, so that what is proved about a handler holds whatever the two
  functions do.
\<close>

record builtins =
  trim :: "string \<Rightarrow> string"
  toUpperCase :: "string \<Rightarrow> string"

text \<open>
  For the examples, whose strings are ASCII: on an ASCII string \<^verbatim>\<open>trim\<close> removes tab,
  line feed, vertical tab, form feed, carriage return and space at both ends, and
  \<^verbatim>\<open>toUpperCase\<close> maps the letters a to z to A to Z.
\<close>

definition isAsciiWhiteSpace :: "char \<Rightarrow> bool" where
  "isAsciiWhiteSpace c = (c \<in> set [CHR 0x09, CHR 0x0A, CHR 0x0B, CHR 0x0C, CHR 0x0D, CHR 0x20])"

definition asciiTrim :: "string \<Rightarrow> string" where
  "asciiTrim s = rev (dropWhile isAsciiWhiteSpace (rev (dropWhile isAsciiWhiteSpace s)))"

definition asciiUpperChar :: "char \<Rightarrow> char" where
  "asciiUpperChar c =
     (let n = (of_char c :: nat) in if 97 \<le> n \<and> n \<le> 122 then char_of (n - 32) else c)"

definition asciiUpperCase :: "string \<Rightarrow> string" where
  "asciiUpperCase s = map asciiUpperChar s"

definition ascii :: builtins where
  "ascii = \<lparr> trim = asciiTrim, toUpperCase = asciiUpperCase \<rparr>"

text \<open>A string is truthy when it is there and not empty.\<close>

fun truthy :: "string option \<Rightarrow> bool" where
  "truthy None = False"
| "truthy (Some s) = (s \<noteq> [])"

section \<open>Objects keyed by question id\<close>

text \<open>
  JavaScript enumerates the own string keys of an object with the array indices first,
  in ascending numeric order, and the other keys after them in the order of their
  creation. An array index is the canonical decimal numeral of a number from 0 to
  \<open>2\<^sup>3\<^sup>2 - 2\<close>.
\<close>

definition isDigit :: "char \<Rightarrow> bool" where
  "isDigit c = (48 \<le> (of_char c :: int) \<and> (of_char c :: int) \<le> 57)"

definition digitsValue :: "string \<Rightarrow> int" where
  "digitsValue k = foldl (\<lambda>n c. 10 * n + ((of_char c :: int) - 48)) 0 k"

definition arrayIndex :: "string \<Rightarrow> int option" where
  "arrayIndex k =
     (if k \<noteq> [] \<and> list_all isDigit k \<and> (k = ''0'' \<or> hd k \<noteq> CHR ''0'')
         \<and> digitsValue k \<le> 4294967294
      then Some (digitsValue k) else None)"

fun insertIndexed :: "int \<Rightarrow> string \<times> 'v \<Rightarrow> (string \<times> 'v) list \<Rightarrow> (string \<times> 'v) list" where
  "insertIndexed n kv [] = [kv]"
| "insertIndexed n kv (p # ps) =
     (case arrayIndex (fst p) of
        Some m \<Rightarrow> if m < n then p # insertIndexed n kv ps else kv # p # ps
      | None \<Rightarrow> kv # p # ps)"

text \<open>
  Defining the own property \<open>k\<close>, as a computed key in an object literal does after a
  spread: the value of an existing key is replaced where the key stands, a new key takes
  its place in the enumeration order.
\<close>

definition defineOwn :: "string \<Rightarrow> 'v \<Rightarrow> (string \<times> 'v) list \<Rightarrow> (string \<times> 'v) list" where
  "defineOwn k v al =
     (if map_of al k \<noteq> None then AList.update k v al
      else case arrayIndex k of
             Some n \<Rightarrow> insertIndexed n (k, v) al
           | None \<Rightarrow> al @ [(k, v)])"

text \<open>The names of the properties that every object inherits from \<^verbatim>\<open>Object.prototype\<close>.\<close>

definition objectPrototypeNames :: "string list" where
  "objectPrototypeNames =
     [''constructor'', ''__defineGetter__'', ''__defineSetter__'', ''hasOwnProperty'',
      ''__lookupGetter__'', ''__lookupSetter__'', ''isPrototypeOf'',
      ''propertyIsEnumerable'', ''toString'', ''valueOf'', ''__proto__'',
      ''toLocaleString'']"

text \<open>
  The value of \<^verbatim>\<open>grades[k]\<close> when it is a grade: an own property, or for the key
  \<^verbatim>\<open>__proto__\<close> the grade that has been made the prototype.
\<close>

definition gradeAt :: "GradesObject \<Rightarrow> string \<Rightarrow> QuestionGrade option" where
  "gradeAt obj k =
     (case map_of (own obj) k of
        Some g \<Rightarrow> Some g
      | None \<Rightarrow> if k = ''__proto__'' then proto obj else None)"

text \<open>
  \<^verbatim>\<open>grades[k]\<close> is inherited, truthy and not a grade: a function or the object
  \<^verbatim>\<open>Object.prototype\<close> for a name of \<open>objectPrototypeNames\<close>, or a truthy field of the
  grade that has been made the prototype.
\<close>

definition inheritsTruthy :: "GradesObject \<Rightarrow> string \<Rightarrow> bool" where
  "inheritsTruthy obj k =
     (k \<in> set objectPrototypeNames
      \<or> (case proto obj of
            None \<Rightarrow> False
          | Some G \<Rightarrow>
              (k = ''score'' \<and> score G \<noteq> None \<and> score G \<noteq> Some 0)
            \<or> (k = ''comment'' \<and> truthy (comment G))
            \<or> (k = ''studentAnswer'' \<and> truthy (studentAnswer G))
            \<or> (k = ''isAiSuggested'' \<and> isAiSuggested G = Some True)))"

text \<open>
  The assignment \<^verbatim>\<open>obj[k] = v\<close> of a grade: an own property is overwritten; otherwise
  the key \<^verbatim>\<open>__proto__\<close> runs the setter inherited from \<^verbatim>\<open>Object.prototype\<close>, which
  makes \<open>v\<close> the prototype and creates no property; any other key becomes an own
  property.
\<close>

definition assignGrade :: "string \<Rightarrow> QuestionGrade \<Rightarrow> GradesObject \<Rightarrow> GradesObject" where
  "assignGrade k v obj =
     (if map_of (own obj) k \<noteq> None then obj\<lparr> own := AList.update k v (own obj) \<rparr>
      else if k = ''__proto__'' then obj\<lparr> proto := Some v \<rparr>
      else obj\<lparr> own := defineOwn k v (own obj) \<rparr>)"

text \<open>The object literal \<^verbatim>\<open>{ ...obj, [k]: v }\<close>: a fresh object with the own properties.\<close>

definition spreadWith :: "GradesObject \<Rightarrow> string \<Rightarrow> QuestionGrade \<Rightarrow> GradesObject" where
  "spreadWith obj k v = \<lparr> own = defineOwn k v (own obj), proto = None \<rparr>"

definition emptyGrades :: GradesObject where
  "emptyGrades = \<lparr> own = [], proto = None \<rparr>"

section \<open>The grading workspace (GradingView.tsx)\<close>

text \<open>
  The component's state that the handlers read is \<^verbatim>\<open>selectedStudentId\<close>
  (\<^verbatim>\<open>string | null\<close>). A handler either calls \<^verbatim>\<open>onUpdate\<close> once with a replacement
  assessment (\<open>Some\<close>) or returns without calling it (\<open>None\<close>).
\<close>

definition selectedStudent :: "string option \<Rightarrow> Assessment \<Rightarrow> StudentSubmission option" where
  "selectedStudent selectedStudentId assessment =
     (case selectedStudentId of
        None \<Rightarrow> None
      | Some i \<Rightarrow> find (\<lambda>s. sid s = i) (students assessment))"

text \<open>
  \<^verbatim>\<open>Object.values(newGrades).reduce((sum, g) => sum + g.score, 0)\<close>: adding
  \<^verbatim>\<open>undefined\<close> gives \<^verbatim>\<open>NaN\<close>, and \<^verbatim>\<open>NaN\<close> stays.
\<close>

definition addScore :: "int option \<Rightarrow> QuestionGrade \<Rightarrow> int option" where
  "addScore acc g =
     (case (acc, score g) of
        (Some a, Some b) \<Rightarrow> Some (a + b)
      | _ \<Rightarrow> None)"

definition sumScores :: "GradesObject \<Rightarrow> int option" where
  "sumScores obj = foldl addScore (Some 0) (map snd (own obj))"

text \<open>The object spread \<^verbatim>\<open>{ ...currentGrade, ...newGradeData }\<close>.\<close>

definition mergeGrade :: "QuestionGrade \<Rightarrow> GradeUpdate \<Rightarrow> QuestionGrade" where
  "mergeGrade g u =
     \<lparr> score = (case u_score u of Some x \<Rightarrow> Some x | None \<Rightarrow> score g),
       comment = (case u_comment u of Some c \<Rightarrow> Some c | None \<Rightarrow> comment g),
       studentAnswer = (case u_studentAnswer u of Some a \<Rightarrow> a | None \<Rightarrow> studentAnswer g),
       isAiSuggested = (case u_isAiSuggested u of Some b \<Rightarrow> Some b | None \<Rightarrow> isAiSuggested g) \<rparr>"

definition defaultGrade :: QuestionGrade where
  "defaultGrade = \<lparr> score = Some 0, comment = Some [], studentAnswer = None,
                    isAiSuggested = None \<rparr>"

definition emptyGrade :: QuestionGrade where
  "emptyGrade = \<lparr> score = None, comment = None, studentAnswer = None, isAiSuggested = None \<rparr>"

text \<open>
  What \<^verbatim>\<open>currentGrade = selectedStudent.grades[questionId] || { score: 0, comment: '' }\<close>
  contributes to the spread \<^verbatim>\<open>{ ...currentGrade, ...newGradeData }\<close>: the grade when
  \<^verbatim>\<open>grades[questionId]\<close> is one; none of the four fields when it is another truthy
  value (a function, a number, a string or \<^verbatim>\<open>true\<close> has no own enumerable property of
  these names); the default when it is \<^verbatim>\<open>undefined\<close> or falsy.
\<close>

definition currentGradeOf :: "GradesObject \<Rightarrow> string \<Rightarrow> QuestionGrade" where
  "currentGradeOf obj qId =
     (case gradeAt obj qId of
        Some g \<Rightarrow> g
      | None \<Rightarrow> if inheritsTruthy obj qId then emptyGrade else defaultGrade)"

text \<open>
  Lines 87 to 97 of \<^verbatim>\<open>handleGradeChange\<close>: the score of a multiple-choice item is
  derived from the letters when the edit carries a \<^verbatim>\<open>studentAnswer\<close> key.
\<close>

definition adjustGradeData :: "builtins \<Rightarrow> RubricItem option \<Rightarrow> GradeUpdate \<Rightarrow> GradeUpdate" where
  "adjustGradeData js rubricItem gradeData =
     (case rubricItem of
        None \<Rightarrow> gradeData
      | Some r \<Rightarrow>
          if qtype r = MCQ \<and> u_studentAnswer gradeData \<noteq> None \<and> truthy (correctAnswer r)
          then
            (let newVal = (case u_studentAnswer gradeData of
                             Some (Some a) \<Rightarrow> toUpperCase js (trim js a)
                           | _ \<Rightarrow> []);
                 correct = toUpperCase js (trim js (the (correctAnswer r)))
             in gradeData\<lparr> u_score := Some (if newVal = correct then maxPoints r else 0),
                           u_studentAnswer := Some (Some newVal) \<rparr>)
          else gradeData)"

definition handleGradeChange ::
  "builtins \<Rightarrow> string option \<Rightarrow> Assessment \<Rightarrow> string \<Rightarrow> GradeUpdate \<Rightarrow> Assessment option" where
  "handleGradeChange js selectedStudentId assessment qId gradeData =
     (case selectedStudent selectedStudentId assessment of
        None \<Rightarrow> None
      | Some sel \<Rightarrow>
          (let rubricItem = find (\<lambda>r. rid r = qId) (rubric assessment);
               newGradeData = adjustGradeData js rubricItem gradeData;
               currentGrade = currentGradeOf (grades sel) qId;
               newGrades = spreadWith (grades sel) qId (mergeGrade currentGrade newGradeData);
               total = sumScores newGrades;
               updatedStudent = sel\<lparr> grades := newGrades, totalScore := total, status := GRADED \<rparr>;
               updatedStudents = map (\<lambda>s. if Some (sid s) = selectedStudentId
                                             then updatedStudent else s)
                                     (students assessment)
           in Some (assessment\<lparr> students := updatedStudents \<rparr>)))"

text \<open>
  In \<^verbatim>\<open>handleKeyChange\<close> the test \<^verbatim>\<open>currentGrade?.studentAnswer\<close> can only succeed when
  \<^verbatim>\<open>grades[questionId]\<close> is a grade: no other value has that property.
\<close>

definition handleKeyChange ::
  "builtins \<Rightarrow> string option \<Rightarrow> Assessment \<Rightarrow> string \<Rightarrow> string \<Rightarrow> Assessment option" where
  "handleKeyChange js selectedStudentId assessment qId newKey =
     (let updatedRubric = map (\<lambda>r. if rid r = qId
                                    then r\<lparr> correctAnswer := Some (toUpperCase js newKey) \<rparr>
                                    else r)
                              (rubric assessment);
          updatedStudents =
            (case selectedStudent selectedStudentId assessment of
               None \<Rightarrow> students assessment
             | Some sel \<Rightarrow>
                 (case (find (\<lambda>r. rid r = qId) updatedRubric, gradeAt (grades sel) qId) of
                    (Some rubricItem, Some currentGrade) \<Rightarrow>
                      if truthy (studentAnswer currentGrade)
                      then
                        (let isCorrect = (toUpperCase js (trim js (the (studentAnswer currentGrade)))
                                            = toUpperCase js (trim js newKey));
                             newScore = (if isCorrect then maxPoints rubricItem else 0);
                             newGrades = spreadWith (grades sel) qId
                                           (currentGrade\<lparr> score := Some newScore \<rparr>);
                             newTotal = sumScores newGrades;
                             updatedStudent = sel\<lparr> grades := newGrades, totalScore := newTotal \<rparr>
                         in map (\<lambda>s. if sid s = sid sel then updatedStudent else s)
                                (students assessment))
                      else students assessment
                  | _ \<Rightarrow> students assessment))
      in Some (assessment\<lparr> rubric := updatedRubric, students := updatedStudents \<rparr>))"

text \<open>
  \<^verbatim>\<open>runAiGrading\<close> awaits \<^verbatim>\<open>gradeStudentSubmission\<close>; its outcome (the results, or the
  error it throws) is the argument \<open>outcome\<close>. The body of \<^verbatim>\<open>results.forEach\<close> is
  \<open>applyAiResult\<close>, on the pair of \<^verbatim>\<open>newGrades\<close> and \<^verbatim>\<open>newTotal\<close>. The handler works on
  the \<^verbatim>\<open>assessment\<close> and the \<^verbatim>\<open>selectedStudentId\<close> of the render in which it was
  started, also after the \<^verbatim>\<open>await\<close>.
\<close>

definition applyAiResult ::
  "builtins \<Rightarrow> RubricItem list \<Rightarrow> GradesObject \<times> int \<Rightarrow> AiGradingResult
     \<Rightarrow> GradesObject \<times> int" where
  "applyAiResult js rub st res =
     (let rubricItem = find (\<lambda>r. rid r = questionId res) rub;
          finalScore =
            (case rubricItem of
               None \<Rightarrow> res_score res
             | Some r \<Rightarrow>
                 if qtype r = MCQ \<and> truthy (correctAnswer r) \<and> truthy (res_studentAnswer res)
                 then (if toUpperCase js (trim js (the (correctAnswer r)))
                            = toUpperCase js (trim js (the (res_studentAnswer res)))
                       then maxPoints r else 0)
                 else res_score res)
      in (assignGrade (questionId res)
            \<lparr> score = Some finalScore, comment = Some (res_comment res),
              studentAnswer = res_studentAnswer res, isAiSuggested = Some True \<rparr>
            (fst st),
          snd st + finalScore))"

definition runAiGrading ::
  "builtins \<Rightarrow> string option \<Rightarrow> Assessment \<Rightarrow> error + AiGradingResult list
     \<Rightarrow> Assessment option" where
  "runAiGrading js selectedStudentId assessment outcome =
     (case selectedStudent selectedStudentId assessment of
        None \<Rightarrow> None
      | Some sel \<Rightarrow>
          if \<not> truthy (fileData sel) then None
          else
            (case outcome of
               Inl err \<Rightarrow> None
             | Inr results \<Rightarrow>
                 (let (newGrades, newTotal) =
                        foldl (applyAiResult js (rubric assessment))
                          (\<lparr> own = own (grades sel), proto = None \<rparr>, 0) results;
                      updatedStudent =
                        sel\<lparr> grades := newGrades, totalScore := Some newTotal,
                             status := GRADED \<rparr>;
                      updatedStudents = map (\<lambda>s. if Some (sid s) = selectedStudentId
                                                    then updatedStudent else s)
                                            (students assessment)
                  in Some (assessment\<lparr> students := updatedStudents \<rparr>))))"

definition addCannedComment :: "Assessment \<Rightarrow> string \<Rightarrow> Assessment option" where
  "addCannedComment assessment text =
     (if text \<notin> set (cannedComments assessment)
      then Some (assessment\<lparr> cannedComments := cannedComments assessment @ [text] \<rparr>)
      else None)"

text \<open>
  The assessment the application holds after a handler ran: the replacement when
  \<^verbatim>\<open>onUpdate\<close> was called, the old one otherwise.
\<close>

definition afterUpdate :: "Assessment \<Rightarrow> Assessment option \<Rightarrow> Assessment" where
  "afterUpdate assessment r = (case r of None \<Rightarrow> assessment | Some a \<Rightarrow> a)"

text \<open>The assessment the application starts with (\<^verbatim>\<open>App.tsx\<close>); \<open>now\<close> is \<^verbatim>\<open>Date.now()\<close>.\<close>

definition initialAssessment :: "int \<Rightarrow> Assessment" where
  "initialAssessment now =
     \<lparr> aid = ''draft-1'', title = ''Untitled Assessment'', description = [],
       astatus = DRAFT, rubric = [], students = [],
       cannedComments = [''Great work!'', ''Needs more detail here.'',
                         ''Excellent analysis.'', ''Please show your calculations.''],
       created = now \<rparr>"

section \<open>The PDF splitter (pdfSplittingService.ts)\<close>

text \<open>
  A loaded \<^verbatim>\<open>PDFDocument\<close> is the list of its pages; the document saved for a student
  (the \<^verbatim>\<open>blob\<close>) is the list of the pages copied into it. \<open>rangeName\<close> is
  \<^verbatim>\<open>SplitRange.studentName\<close> and \<open>docName\<close> the \<^verbatim>\<open>studentName\<close> of an output entry.
\<close>

record SplitRange =
  rangeName :: string
  startPage :: int
  endPage :: int

record 'p SplitResult =
  docName :: string
  blob :: "'p list"

text \<open>
  The inner loop of lines 24 to 30:
  \<^verbatim>\<open>for (let i = range.startPage; i <= range.endPage; i++) if (i - 1 < pageCount) push(i - 1)\<close>
\<close>

function pageIndicesLoop :: "int \<Rightarrow> int \<Rightarrow> int \<Rightarrow> int list \<Rightarrow> int list" where
  "pageIndicesLoop i endP pageCount pageIndices =
     (if i \<le> endP
      then pageIndicesLoop (i + 1) endP pageCount
             (if i - 1 < pageCount then pageIndices @ [i - 1] else pageIndices)
      else pageIndices)"
  by pat_completeness auto
termination
  by (relation "measure (\<lambda>(i, endP, pageCount, pageIndices). nat (endP + 1 - i))") auto

declare pageIndicesLoop.simps [simp del]

text \<open>
  \<^verbatim>\<open>copyPages\<close> belongs to the library pdf-lib. It reads \<^verbatim>\<open>srcPages[index].node\<close> for
  each index, which throws a \<^verbatim>\<open>TypeError\<close> when the source has no page at that index;
  otherwise it returns the copies of the pages in the order of the indices.
\<close>

definition copyPages :: "'p list \<Rightarrow> int list \<Rightarrow> error + 'p list" where
  "copyPages srcDoc indices =
     (if list_all (\<lambda>i. 0 \<le> i \<and> i < int (length srcDoc)) indices
      then Inr (map (\<lambda>i. srcDoc ! nat i) indices)
      else Inl (TypeError ''Cannot read properties of undefined''))"

text \<open>The loop over the ranges, with \<^verbatim>\<open>results\<close> as accumulator.\<close>

fun splitLoop ::
  "'p list \<Rightarrow> SplitRange list \<Rightarrow> 'p SplitResult list \<Rightarrow> error + 'p SplitResult list" where
  "splitLoop pdfDoc [] results = Inr results"
| "splitLoop pdfDoc (rng # rest) results =
     (let pageIndices = pageIndicesLoop (startPage rng) (endPage rng)
                          (int (length pdfDoc)) []
      in if length pageIndices > 0
         then (case copyPages pdfDoc pageIndices of
                 Inl err \<Rightarrow> Inl err
               | Inr copiedPages \<Rightarrow>
                   splitLoop pdfDoc rest
                     (results @ [\<lparr> docName = rangeName rng, blob = copiedPages \<rparr>]))
         else splitLoop pdfDoc rest results)"

definition splitPdfByRanges ::
  "'p list \<Rightarrow> SplitRange list \<Rightarrow> error + 'p SplitResult list" where
  "splitPdfByRanges pdfDoc ranges = splitLoop pdfDoc ranges []"

section \<open>The AI gateway (geminiService.ts)\<close>

text \<open>
  The hosted model is outside the program. What it does is the parameter
  \<open>generateContent\<close>: the outcome of the \<open>k\<close>-th request the session sends, either the
  error the call throws or a response, of which the gateway reads \<^verbatim>\<open>response.text\<close>
  (\<open>None\<close> when it is \<^verbatim>\<open>undefined\<close>). \<^verbatim>\<open>JSON.parse\<close>, with the shape the caller's type
  gives the parsed value, is the parameter \<open>JSON_parse\<close>: it throws or returns the array.
  The gateway changes two things in the world: it sends requests, and it writes lines
  with \<^verbatim>\<open>console.error\<close>. \<open>apiKey\<close> is the module's constant
  \<^verbatim>\<open>process.env.API_KEY || ''\<close>. The instruction texts and the response schemas are
  constants of the source; a request keeps which of the four it carries.
\<close>

record world =
  requests :: nat
  consoleErrors :: "(string \<times> error) list"

datatype instruction =
    RubricInstruction
  | RosterInstruction
  | RangesInstruction
  | GradingInstruction "RubricItem list"

record request =
  req_mimeType :: string
  req_data :: string
  req_instruction :: instruction

type_synonym remote = "request \<Rightarrow> nat \<Rightarrow> error + string option"

text \<open>
  What the model returns for a rubric item: the fields of the schema, and an \<^verbatim>\<open>id\<close>
  only if the model adds one (the spread \<^verbatim>\<open>{ id: ..., ...item }\<close> lets it win).
  \<open>mkId index\<close> is the template string \<^verbatim>\<open>q-${Date.now()}-${index}\<close>.
\<close>

record ParsedRubricItem =
  p_id :: "string option"
  p_item :: RubricItem

record StudentRange =
  sr_studentName :: string
  sr_startPage :: int
  sr_endPage :: int

definition generateRubricFromPDF ::
  "string \<Rightarrow> remote \<Rightarrow> (string \<Rightarrow> error + ParsedRubricItem list) \<Rightarrow> (nat \<Rightarrow> string)
     \<Rightarrow> string \<Rightarrow> string \<Rightarrow> world \<Rightarrow> (error + RubricItem list) \<times> world" where
  "generateRubricFromPDF apiKey generateContent JSON_parse mkId base64Data mimeType w =
     (if apiKey = [] then (Inl (Error ''API Key not found''), w)
      else
        (let w1 = w\<lparr> requests := Suc (requests w) \<rparr>
         in case generateContent \<lparr> req_mimeType = mimeType, req_data = base64Data,
                                   req_instruction = RubricInstruction \<rparr> (requests w) of
              Inl err \<Rightarrow>
                (Inl err, w1\<lparr> consoleErrors := consoleErrors w1
                                 @ [(''Gemini Rubric Generation Error:'', err)] \<rparr>)
            | Inr text \<Rightarrow>
                if \<not> truthy text then (Inr [], w1)
                else
                  (case JSON_parse (the text) of
                     Inl err \<Rightarrow>
                       (Inl err, w1\<lparr> consoleErrors := consoleErrors w1
                                        @ [(''Gemini Rubric Generation Error:'', err)] \<rparr>)
                   | Inr data \<Rightarrow>
                       (Inr (map (\<lambda>(index, item).
                                    (p_item item)\<lparr> rid := (case p_id item of
                                                               Some i \<Rightarrow> i
                                                             | None \<Rightarrow> mkId index) \<rparr>)
                                 (enumerate 0 data)),
                        w1))))"

definition parseStudentRoster ::
  "string \<Rightarrow> remote \<Rightarrow> (string \<Rightarrow> error + string list)
     \<Rightarrow> string \<Rightarrow> string \<Rightarrow> world \<Rightarrow> (error + string list) \<times> world" where
  "parseStudentRoster apiKey generateContent JSON_parse base64Data mimeType w =
     (if apiKey = [] then (Inl (Error ''API Key not found''), w)
      else
        (let w1 = w\<lparr> requests := Suc (requests w) \<rparr>
         in case generateContent \<lparr> req_mimeType = mimeType, req_data = base64Data,
                                   req_instruction = RosterInstruction \<rparr> (requests w) of
              Inl err \<Rightarrow>
                (Inl err, w1\<lparr> consoleErrors := consoleErrors w1
                                 @ [(''Gemini Roster Parsing Error:'', err)] \<rparr>)
            | Inr text \<Rightarrow>
                if \<not> truthy text then (Inr [], w1)
                else
                  (case JSON_parse (the text) of
                     Inl err \<Rightarrow>
                       (Inl err, w1\<lparr> consoleErrors := consoleErrors w1
                                        @ [(''Gemini Roster Parsing Error:'', err)] \<rparr>)
                   | Inr names \<Rightarrow> (Inr names, w1))))"

definition identifyStudentRanges ::
  "string \<Rightarrow> remote \<Rightarrow> (string \<Rightarrow> error + StudentRange list)
     \<Rightarrow> string \<Rightarrow> string \<Rightarrow> world \<Rightarrow> (error + StudentRange list) \<times> world" where
  "identifyStudentRanges apiKey generateContent JSON_parse base64Data mimeType w =
     (if apiKey = [] then (Inl (Error ''API Key not found''), w)
      else
        (let w1 = w\<lparr> requests := Suc (requests w) \<rparr>
         in case generateContent \<lparr> req_mimeType = mimeType, req_data = base64Data,
                                   req_instruction = RangesInstruction \<rparr> (requests w) of
              Inl err \<Rightarrow>
                (Inl err, w1\<lparr> consoleErrors := consoleErrors w1
                                 @ [(''Gemini Split Analysis Error:'', err)] \<rparr>)
            | Inr text \<Rightarrow>
                if \<not> truthy text then (Inr [], w1)
                else
                  (case JSON_parse (the text) of
                     Inl err \<Rightarrow>
                       (Inl err, w1\<lparr> consoleErrors := consoleErrors w1
                                        @ [(''Gemini Split Analysis Error:'', err)] \<rparr>)
                   | Inr ranges \<Rightarrow> (Inr ranges, w1))))"

definition gradeStudentSubmission ::
  "string \<Rightarrow> remote \<Rightarrow> (string \<Rightarrow> error + AiGradingResult list)
     \<Rightarrow> RubricItem list \<Rightarrow> string \<Rightarrow> string \<Rightarrow> world
     \<Rightarrow> (error + AiGradingResult list) \<times> world" where
  "gradeStudentSubmission apiKey generateContent JSON_parse rub studentBase64 mimeType w =
     (if apiKey = [] then (Inl (Error ''API Key not found''), w)
      else
        (let w1 = w\<lparr> requests := Suc (requests w) \<rparr>
         in case generateContent \<lparr> req_mimeType = mimeType, req_data = studentBase64,
                                   req_instruction = GradingInstruction rub \<rparr> (requests w) of
              Inl err \<Rightarrow>
                (Inl err, w1\<lparr> consoleErrors := consoleErrors w1
                                 @ [(''Gemini Grading Error:'', err)] \<rparr>)
            | Inr text \<Rightarrow>
                if \<not> truthy text then (Inr [], w1)
                else
                  (case JSON_parse (the text) of
                     Inl err \<Rightarrow>
                       (Inl err, w1\<lparr> consoleErrors := consoleErrors w1
                                        @ [(''Gemini Grading Error:'', err)] \<rparr>)
                   | Inr results \<Rightarrow> (Inr results, w1))))"

subsection \<open>The error handling the four operations share\<close>

text \<open>
  The error handling the four operations share, as a predicate on what one of them
  returns (\<open>out\<close>: the value returned or the error thrown, and the world afterwards),
  given the outcome \<open>response\<close> of the request it sends in the world \<open>w\<close>: with an
  empty credential the configuration error and an untouched world; otherwise exactly
  one request, and the transport error itself, the empty array for an empty text, the
  parse error itself, or else a value.
\<close>

definition gatewayContract ::
  "string \<Rightarrow> error + string option \<Rightarrow> (string \<Rightarrow> error + 'p) \<Rightarrow> world
     \<Rightarrow> (error + 'a list) \<times> world \<Rightarrow> bool" where
  "gatewayContract apiKey response JSON_parse w out =
     (if apiKey = [] then out = (Inl (Error ''API Key not found''), w)
      else requests (snd out) = Suc (requests w) \<and>
           (case response of
              Inl err \<Rightarrow> fst out = Inl err
            | Inr text \<Rightarrow>
                if text = None \<or> text = Some [] then fst out = Inr []
                else (case JSON_parse (the text) of
                        Inl err \<Rightarrow> fst out = Inl err
                      | Inr parsed \<Rightarrow> isl (fst out) = False)))"

section \<open>The workspace as a state machine\<close>

text \<open>
  \<^verbatim>\<open>App\<close> holds the assessment and passes \<^verbatim>\<open>setAssessment\<close> as \<^verbatim>\<open>onUpdate\<close>. An event of
  the grading view runs one handler with the \<^verbatim>\<open>selectedStudentId\<close> of its render. The
  handlers of a grade edit, a key change and a canned comment run at once on the
  assessment held at that moment. \<^verbatim>\<open>runAiGrading\<close> is asynchronous: when the answer of
  the model arrives it builds the replacement from the assessment of the render in which
  it was started, the \<open>snapshot\<close> that the event \<open>AiGradingDone\<close> carries, whatever the
  application holds by then. \<open>step\<close> is the assessment held after an event and \<open>run\<close> a
  sequence of events.
\<close>

datatype event =
    GradeChange string GradeUpdate
  | KeyChange string string
  | AiGradingDone Assessment "error + AiGradingResult list"
  | AddCanned string

definition step :: "builtins \<Rightarrow> string option \<Rightarrow> Assessment \<Rightarrow> event \<Rightarrow> Assessment" where
  "step js selectedStudentId assessment ev =
     afterUpdate assessment
       (case ev of
          GradeChange qId gradeData \<Rightarrow>
            handleGradeChange js selectedStudentId assessment qId gradeData
        | KeyChange qId newKey \<Rightarrow> handleKeyChange js selectedStudentId assessment qId newKey
        | AiGradingDone snapshot outcome \<Rightarrow> runAiGrading js selectedStudentId snapshot outcome
        | AddCanned text \<Rightarrow> addCannedComment assessment text)"

fun run :: "builtins \<Rightarrow> Assessment \<Rightarrow> (string option \<times> event) list \<Rightarrow> Assessment" where
  "run js assessment [] = assessment"
| "run js assessment ((selectedStudentId, ev) # rest) =
     run js (step js selectedStudentId assessment ev) rest"

text \<open>
  An AI grading run that completes before any other event writes back the state it was
  started from; \<open>uninterrupted\<close> says that every run of a sequence does.
\<close>

fun startedOnCurrent :: "Assessment \<Rightarrow> event \<Rightarrow> bool" where
  "startedOnCurrent assessment (AiGradingDone snapshot outcome) = (snapshot = assessment)"
| "startedOnCurrent assessment (GradeChange qId gradeData) = True"
| "startedOnCurrent assessment (KeyChange qId newKey) = True"
| "startedOnCurrent assessment (AddCanned text) = True"

fun uninterrupted :: "builtins \<Rightarrow> Assessment \<Rightarrow> (string option \<times> event) list \<Rightarrow> bool" where
  "uninterrupted js assessment [] = True"
| "uninterrupted js assessment ((selectedStudentId, ev) # rest) =
     (startedOnCurrent assessment ev
      \<and> uninterrupted js (step js selectedStudentId assessment ev) rest)"

text \<open>The events that mark the selected student as graded.\<close>

fun marksGraded :: "event \<Rightarrow> bool" where
  "marksGraded (GradeChange qId gradeData) = True"
| "marksGraded (AiGradingDone snapshot (Inr results)) = True"
| "marksGraded (AiGradingDone snapshot (Inl err)) = False"
| "marksGraded (KeyChange qId newKey) = False"
| "marksGraded (AddCanned text) = False"

text \<open>Reading a student's grade for a question out of an assessment.\<close>

definition gradeOf :: "Assessment \<Rightarrow> string \<Rightarrow> string \<Rightarrow> QuestionGrade option" where
  "gradeOf assessment studentId qId =
     (case find (\<lambda>s. sid s = studentId) (students assessment) of
        None \<Rightarrow> None
      | Some s \<Rightarrow> gradeAt (grades s) qId)"

text \<open>
  How \<^verbatim>\<open>StudentSetup\<close> leaves every student it creates, and what the workspace keeps:
  a pending student has the empty object \<^verbatim>\<open>{}\<close> as grades.
\<close>

definition pendingUngraded :: "Assessment \<Rightarrow> bool" where
  "pendingUngraded assessment =
     list_all (\<lambda>s. status s = PENDING \<longrightarrow> grades s = emptyGrades) (students assessment)"

text \<open>The first rubric item with an id, as \<^verbatim>\<open>rubric.find(r => r.id === questionId)\<close>.\<close>

definition rubricItemOf :: "Assessment \<Rightarrow> string \<Rightarrow> RubricItem option" where
  "rubricItemOf assessment qId = find (\<lambda>r. rid r = qId) (rubric assessment)"

text \<open>For each student, the cached total next to the sum of the scores in the mapping.\<close>

definition totals :: "Assessment \<Rightarrow> (int option \<times> int option) list" where
  "totals assessment = map (\<lambda>s. (totalScore s, sumScores (grades s))) (students assessment)"

section \<open>Example data\<close>

text \<open>
  A rubric with one multiple-choice item (5 points, key B) and one free-response item,
  and two students as \<^verbatim>\<open>StudentSetup\<close> creates them: no grades, pending, total 0.
\<close>

definition mcqItem :: RubricItem where
  "mcqItem = \<lparr> rid = ''q1'', question = ''Q1'', maxPoints = 5, criteria = [],
               qtype = MCQ, correctAnswer = Some ''B'' \<rparr>"

definition frqItem :: RubricItem where
  "frqItem = \<lparr> rid = ''q2'', question = ''Q2'', maxPoints = 10, criteria = ''Explain'',
               qtype = FRQ, correctAnswer = None \<rparr>"

definition newStudent :: "string \<Rightarrow> string \<Rightarrow> StudentSubmission" where
  "newStudent i name =
     \<lparr> sid = i, studentName = name, fileData = Some ''JVBERi0='',
       fileType = ''application/pdf'', fileName = name @ ''.pdf'',
       grades = emptyGrades, status = PENDING, totalScore = Some 0 \<rparr>"

definition classroom :: Assessment where
  "classroom = (initialAssessment 0)
     \<lparr> rubric := [mcqItem, frqItem],
       students := [newStudent ''s1'' ''Alice'', newStudent ''s2'' ''Bob''] \<rparr>"



text \<open>A remote whose first request fails and whose later requests would succeed.\<close>

definition failsOnce :: remote where
  "failsOnce req k = (if k = 0 then Inl (Error ''503'') else Inr (Some ''[]''))"

text \<open>A source document of four pages.\<close>

definition fourPages :: "string list" where
  "fourPages = [''p1'', ''p2'', ''p3'', ''p4'']"

text \<open>Edits that set only the answer letter, only the score, only the comment.\<close>

definition answerEdit :: "string \<Rightarrow> GradeUpdate" where
  "answerEdit a = \<lparr> u_score = None, u_comment = None, u_studentAnswer = Some (Some a),
                    u_isAiSuggested = None \<rparr>"

definition scoreEdit :: "int \<Rightarrow> GradeUpdate" where
  "scoreEdit x = \<lparr> u_score = Some x, u_comment = None, u_studentAnswer = None,
                   u_isAiSuggested = None \<rparr>"


text \<open>Both students have answered B on the multiple-choice item.\<close>

definition answeredClass :: Assessment where
  "answeredClass =
     run ascii classroom [(Some ''s1'', GradeChange ''q1'' (answerEdit ''b'')),
                          (Some ''s2'', GradeChange ''q1'' (answerEdit ''B''))]"

section \<open>Canned comments\<close>

text \<open>
  Claim C10. \<^verbatim>\<open>addCannedComment\<close> appends the comment to \<^verbatim>\<open>cannedComments\<close> exactly when
  it is not yet in the list and changes nothing else; when it is in the list the
  assessment is not replaced. A list without duplicates stays without duplicates.
\<close>

theorem addCannedComment_no_duplicate:
  "(text \<notin> set (cannedComments a) \<longrightarrow>
      addCannedComment a text = Some (a\<lparr> cannedComments := cannedComments a @ [text] \<rparr>))
   \<and> (text \<in> set (cannedComments a) \<longrightarrow>
      addCannedComment a text = None \<and> afterUpdate a (addCannedComment a text) = a)
   \<and> (distinct (cannedComments a) \<longrightarrow>
      distinct (cannedComments (afterUpdate a (addCannedComment a text))))"
  by (simp add: addCannedComment_def afterUpdate_def)

theorem addCannedComment_no_duplicate_witness:
  "addCannedComment (initialAssessment 0) ''Well argued.'' =
     Some ((initialAssessment 0)
             \<lparr> cannedComments := cannedComments (initialAssessment 0) @ [''Well argued.''] \<rparr>)
   \<and> addCannedComment (initialAssessment 0) ''Great work!'' = None
   \<and> distinct (cannedComments (afterUpdate (initialAssessment 0)
                  (addCannedComment (initialAssessment 0) ''Well argued.'')))"
proof -
  have fresh: "''Well argued.'' \<notin> set (cannedComments (initialAssessment 0))"
    by (simp add: initialAssessment_def)
  have known: "''Great work!'' \<in> set (cannedComments (initialAssessment 0))"
    by (simp add: initialAssessment_def)
  have dist: "distinct (cannedComments (initialAssessment 0))"
    by (simp add: initialAssessment_def)
  from fresh known dist
    addCannedComment_no_duplicate [of "''Well argued.''" "initialAssessment 0"]
    addCannedComment_no_duplicate [of "''Great work!''" "initialAssessment 0"]
  show ?thesis by blast
qed

section \<open>Error handling of the AI gateway\<close>

lemma truthy_iff: "truthy t \<longleftrightarrow> \<not> (t = None \<or> t = Some [])"
  by (cases t) auto

lemma generateRubricFromPDF_contract:
  "gatewayContract apiKey
     (gc \<lparr> req_mimeType = m, req_data = d, req_instruction = RubricInstruction \<rparr> (requests w))
     jp w (generateRubricFromPDF apiKey gc jp mkId d m w)"
  by (simp add: gatewayContract_def generateRubricFromPDF_def Let_def truthy_iff split: sum.split)

lemma parseStudentRoster_contract:
  "gatewayContract apiKey
     (gc \<lparr> req_mimeType = m, req_data = d, req_instruction = RosterInstruction \<rparr> (requests w))
     jp w (parseStudentRoster apiKey gc jp d m w)"
  by (simp add: gatewayContract_def parseStudentRoster_def Let_def truthy_iff split: sum.split)

lemma identifyStudentRanges_contract:
  "gatewayContract apiKey
     (gc \<lparr> req_mimeType = m, req_data = d, req_instruction = RangesInstruction \<rparr> (requests w))
     jp w (identifyStudentRanges apiKey gc jp d m w)"
  by (simp add: gatewayContract_def identifyStudentRanges_def Let_def truthy_iff split: sum.split)

lemma gradeStudentSubmission_contract:
  "gatewayContract apiKey
     (gc \<lparr> req_mimeType = m, req_data = d, req_instruction = GradingInstruction rub \<rparr> (requests w))
     jp w (gradeStudentSubmission apiKey gc jp rub d m w)"
  by (simp add: gatewayContract_def gradeStudentSubmission_def Let_def truthy_iff split: sum.split)

text \<open>
  Claim C7. Each of the four gateway operations (rubric extraction, roster extraction,
  page-range detection, submission grading) meets \<open>gatewayContract\<close>: with an empty
  credential it throws the configuration error before any request is sent; otherwise it
  sends exactly one request (no retry), returns the empty array when the response text
  is missing or empty, and throws the transport error or the parse error it caught.
\<close>

theorem gateway_error_handling:
  "gatewayContract apiKey
     (gc \<lparr> req_mimeType = m, req_data = d, req_instruction = RubricInstruction \<rparr> (requests w))
     jpR w (generateRubricFromPDF apiKey gc jpR mkId d m w)
   \<and> gatewayContract apiKey
     (gc \<lparr> req_mimeType = m, req_data = d, req_instruction = RosterInstruction \<rparr> (requests w))
     jpN w (parseStudentRoster apiKey gc jpN d m w)
   \<and> gatewayContract apiKey
     (gc \<lparr> req_mimeType = m, req_data = d, req_instruction = RangesInstruction \<rparr> (requests w))
     jpS w (identifyStudentRanges apiKey gc jpS d m w)
   \<and> gatewayContract apiKey
     (gc \<lparr> req_mimeType = m, req_data = d, req_instruction = GradingInstruction rub \<rparr> (requests w))
     jpG w (gradeStudentSubmission apiKey gc jpG rub d m w)"
  by (intro conjI generateRubricFromPDF_contract parseStudentRoster_contract
        identifyStudentRanges_contract gradeStudentSubmission_contract)

theorem gateway_error_handling_witness:
  "generateRubricFromPDF [] failsOnce (\<lambda>t. Inr []) (\<lambda>i. ''q'') ''JVBERi0='' ''application/pdf''
       \<lparr> requests = 0, consoleErrors = [] \<rparr>
     = (Inl (Error ''API Key not found''), \<lparr> requests = 0, consoleErrors = [] \<rparr>)
   \<and> fst (gradeStudentSubmission ''key'' failsOnce (\<lambda>t. Inr []) [] ''JVBERi0='' ''application/pdf''
         \<lparr> requests = 0, consoleErrors = [] \<rparr>) = Inl (Error ''503'')
   \<and> requests (snd (gradeStudentSubmission ''key'' failsOnce (\<lambda>t. Inr []) [] ''JVBERi0=''
         ''application/pdf'' \<lparr> requests = 0, consoleErrors = [] \<rparr>)) = 1
   \<and> fst (parseStudentRoster ''key'' (\<lambda>req k. Inr (Some [])) (\<lambda>t. Inl (Error ''SyntaxError''))
         ''JVBERi0='' ''application/pdf'' \<lparr> requests = 0, consoleErrors = [] \<rparr>) = Inr []
   \<and> fst (identifyStudentRanges ''key'' (\<lambda>req k. Inr (Some ''{'')) (\<lambda>t. Inl (Error ''SyntaxError''))
         ''JVBERi0='' ''application/pdf'' \<lparr> requests = 0, consoleErrors = [] \<rparr>)
       = Inl (Error ''SyntaxError'')"
proof -
  let ?w = "\<lparr> requests = 0, consoleErrors = [] \<rparr>"
  let ?ok = "\<lambda>t::string. Inr [] :: error + ParsedRubricItem list"
  let ?okG = "\<lambda>t::string. Inr [] :: error + AiGradingResult list"
  let ?bad = "\<lambda>t::string. Inl (Error ''SyntaxError'') :: error + string list"
  let ?badS = "\<lambda>t::string. Inl (Error ''SyntaxError'') :: error + StudentRange list"
  note c1 = gateway_error_handling [where apiKey = "[]" and gc = "failsOnce" and m = "''application/pdf''"
      and d = "''JVBERi0=''" and w = ?w and jpR = ?ok and mkId = "\<lambda>i. ''q''" and jpN = ?bad
      and jpS = ?badS and jpG = ?okG and rub = "[]"]
  note c2 = gateway_error_handling [where apiKey = "''key''" and gc = "failsOnce" and m = "''application/pdf''"
      and d = "''JVBERi0=''" and w = ?w and jpR = ?ok and mkId = "\<lambda>i. ''q''" and jpN = ?bad
      and jpS = ?badS and jpG = ?okG and rub = "[]"]
  note c3 = gateway_error_handling [where apiKey = "''key''" and gc = "\<lambda>req k. Inr (Some [])" and m = "''application/pdf''"
      and d = "''JVBERi0=''" and w = ?w and jpR = ?ok and mkId = "\<lambda>i. ''q''" and jpN = ?bad
      and jpS = ?badS and jpG = ?okG and rub = "[]"]
  note c4 = gateway_error_handling [where apiKey = "''key''" and gc = "\<lambda>req k. Inr (Some ''{'')" and m = "''application/pdf''"
      and d = "''JVBERi0=''" and w = ?w and jpR = ?ok and mkId = "\<lambda>i. ''q''" and jpN = ?bad
      and jpS = ?badS and jpG = ?okG and rub = "[]"]
  from c1 have p1: "generateRubricFromPDF [] failsOnce ?ok (\<lambda>i. ''q'') ''JVBERi0='' ''application/pdf'' ?w
     = (Inl (Error ''API Key not found''), ?w)"
    by (simp add: gatewayContract_def)
  from c2 have p2: "fst (gradeStudentSubmission ''key'' failsOnce ?okG [] ''JVBERi0='' ''application/pdf'' ?w)
       = Inl (Error ''503'')
     \<and> requests (snd (gradeStudentSubmission ''key'' failsOnce ?okG [] ''JVBERi0='' ''application/pdf'' ?w)) = 1"
    by (simp add: gatewayContract_def failsOnce_def)
  from c3 have p3: "fst (parseStudentRoster ''key'' (\<lambda>req k. Inr (Some [])) ?bad
         ''JVBERi0='' ''application/pdf'' ?w) = Inr []"
    by (simp add: gatewayContract_def)
  from c4 have p4: "fst (identifyStudentRanges ''key'' (\<lambda>req k. Inr (Some ''{'')) ?badS
         ''JVBERi0='' ''application/pdf'' ?w) = Inl (Error ''SyntaxError'')"
    by (simp add: gatewayContract_def)
  from p1 p2 p3 p4 show ?thesis by simp
qed

section \<open>The PDF splitter: ranges and the lower bound\<close>

lemma pageIndicesLoop_eq:
  "pageIndicesLoop i e n acc = acc @ map (\<lambda>k. k - 1) (filter (\<lambda>k. k - 1 < n) [i..e])"
proof (induction i e n acc rule: pageIndicesLoop.induct)
  case (1 i e n acc)
  show ?case
  proof (cases "i \<le> e")
    case True
    then have u: "[i..e] = i # [i + 1..e]" by (rule upto_rec1)
    from True 1 show ?thesis
      by (subst pageIndicesLoop.simps) (simp add: u)
  next
    case False
    then show ?thesis by (subst pageIndicesLoop.simps) simp
  qed
qed

lemma filter_upto_le: "filter (\<lambda>k. k - 1 < n) [i..e] = [i..min e n]"
proof (induction i e rule: upto.induct)
  case (1 i j)
  show ?case
  proof (cases "i \<le> j")
    case True
    then have u: "[i..j] = i # [i + 1..j]" by (rule upto_rec1)
    show ?thesis
    proof (cases "i \<le> n")
      case le: True
      with True have "[i..min j n] = i # [i + 1..min j n]" by (intro upto_rec1) simp
      with 1 True le show ?thesis by (simp add: u)
    next
      case gt: False
      then have "[i..min j n] = []" by simp
      moreover from gt have "\<forall>k\<in>set [i + 1..j]. \<not> k - 1 < n" by auto
      then have "filter (\<lambda>k. k - 1 < n) [i + 1..j] = []" by (simp only: filter_False)
      ultimately show ?thesis using gt by (simp add: u)
    qed
  next
    case False
    then show ?thesis by simp
  qed
qed


lemma pageIndices_clipped:
  "pageIndicesLoop s e n [] = map (\<lambda>k. k - 1) [s..min e n]"
  by (simp add: pageIndicesLoop_eq filter_upto_le)

lemma pages_take_drop:
  assumes "1 \<le> s" and "e \<le> int (length src)"
  shows "map (\<lambda>i. src ! nat i) (map (\<lambda>k. k - 1) [s..e])
           = take (nat (e - s + 1)) (drop (nat (s - 1)) src)"
proof (rule nth_equalityI)
  show "length (map (\<lambda>i. src ! nat i) (map (\<lambda>k. k - 1) [s..e]))
          = length (take (nat (e - s + 1)) (drop (nat (s - 1)) src))"
    using assms by auto
next
  fix i assume "i < length (map (\<lambda>i. src ! nat i) (map (\<lambda>k. k - 1) [s..e]))"
  then have i: "i < nat (e - s + 1)" by simp
  then have le: "s + int i \<le> e" by linarith
  have len: "i < length [s..e]" using i by simp
  have nth: "[s..e] ! i = s + int i" using le by (rule nth_upto)
  have idx: "nat (s + int i - 1) = nat (s - 1) + i" using assms by linarith
  have "map (\<lambda>i. src ! nat i) (map (\<lambda>k. k - 1) [s..e]) ! i = src ! nat ([s..e] ! i - 1)"
    using len by (simp only: nth_map length_map)
  also have "\<dots> = src ! (nat (s - 1) + i)" by (simp only: nth idx)
  also have "\<dots> = drop (nat (s - 1)) src ! i"
    using assms le by (intro nth_drop [symmetric]) linarith
  also have "\<dots> = take (nat (e - s + 1)) (drop (nat (s - 1)) src) ! i"
    using i by (simp only: nth_take)
  finally show "map (\<lambda>i. src ! nat i) (map (\<lambda>k. k - 1) [s..e]) ! i
          = take (nat (e - s + 1)) (drop (nat (s - 1)) src) ! i" .
qed

lemma copyPages_clipped:
  assumes "1 \<le> s"
  shows "copyPages src (map (\<lambda>k. k - 1) [s..min e (int (length src))])
           = Inr (take (nat (min e (int (length src)) - s + 1)) (drop (nat (s - 1)) src))"
proof -
  have "list_all (\<lambda>i. 0 \<le> i \<and> i < int (length src)) (map (\<lambda>k. k - 1) [s..min e (int (length src))])"
    using assms by (auto simp: list_all_iff)
  moreover have "map (\<lambda>i. src ! nat i) (map (\<lambda>k. k - 1) [s..min e (int (length src))])
      = take (nat (min e (int (length src)) - s + 1)) (drop (nat (s - 1)) src)"
    using assms by (intro pages_take_drop) simp_all
  ultimately show ?thesis
    unfolding copyPages_def by (simp only: if_True)
qed


lemma splitLoop_clipped:
  assumes "\<forall>r\<in>set ranges. 1 \<le> startPage r \<or> endPage r < startPage r"
  shows "splitLoop src ranges acc =
           Inr (acc @ map (\<lambda>r. \<lparr> docName = rangeName r,
                                  blob = take (nat (min (endPage r) (int (length src)) - startPage r + 1))
                                           (drop (nat (startPage r - 1)) src) \<rparr>)
                        (filter (\<lambda>r. startPage r \<le> endPage r \<and> startPage r \<le> int (length src))
                           ranges))"
  using assms
proof (induction ranges arbitrary: acc)
  case Nil
  then show ?case by simp
next
  case (Cons r rest)
  let ?n = "int (length src)"
  have rest: "\<forall>q\<in>set rest. 1 \<le> startPage q \<or> endPage q < startPage q"
    using Cons.prems by simp
  show ?case
  proof (cases "startPage r \<le> endPage r \<and> startPage r \<le> ?n")
    case True
    then have one: "1 \<le> startPage r" using Cons.prems by auto
    from True have ne: "\<not> min (endPage r) ?n < startPage r" by (simp add: min_def)
    show ?thesis
      using True ne Cons.IH [OF rest] copyPages_clipped [OF one, of src "endPage r"]
      by (simp add: pageIndices_clipped)
  next
    case False
    with Cons.IH [OF rest] show ?thesis
      by (auto simp: pageIndices_clipped)
  qed
qed

text \<open>
  What the splitter does when no range of the list asks for a page below 1. A range
  \<open>r\<close> of the list with \<open>1 \<le> startPage \<le> endPage \<le> pageCount\<close> then has exactly one
  document, between the output for the ranges before it and the output for the ranges
  after it, with the pages \<open>startPage..endPage\<close> of the source in their order.
\<close>

lemma splitPdfByRanges_from_page_one:
  assumes below: "\<forall>q\<in>set ranges. 1 \<le> startPage q \<or> endPage q < startPage q"
      and pos: "ranges = pre @ r # post"
      and valid: "1 \<le> startPage r" "startPage r \<le> endPage r" "endPage r \<le> int (length src)"
  shows "\<exists>before after.
           splitPdfByRanges src pre = Inr before \<and> splitPdfByRanges src post = Inr after
         \<and> splitPdfByRanges src ranges =
             Inr (before @ \<lparr> docName = rangeName r,
                              blob = take (nat (endPage r - startPage r + 1))
                                       (drop (nat (startPage r - 1)) src) \<rparr> # after)
         \<and> int (length (take (nat (endPage r - startPage r + 1))
                           (drop (nat (startPage r - 1)) src)))
             = endPage r - startPage r + 1"
proof -
  let ?keep = "\<lambda>r. startPage r \<le> endPage r \<and> startPage r \<le> int (length src)"
  let ?doc = "\<lambda>r. \<lparr> docName = rangeName r,
                      blob = take (nat (min (endPage r) (int (length src)) - startPage r + 1))
                               (drop (nat (startPage r - 1)) src) \<rparr>"
  from below pos have bpre: "\<forall>q\<in>set pre. 1 \<le> startPage q \<or> endPage q < startPage q"
    and bpost: "\<forall>q\<in>set post. 1 \<le> startPage q \<or> endPage q < startPage q"
    by simp_all
  have min: "min (endPage r) (int (length src)) = endPage r" using valid by simp
  have keep: "?keep r" using valid by simp
  have "splitPdfByRanges src pre = Inr (map ?doc (filter ?keep pre))"
    unfolding splitPdfByRanges_def using splitLoop_clipped [OF bpre, of src "[]"] by simp
  moreover have "splitPdfByRanges src post = Inr (map ?doc (filter ?keep post))"
    unfolding splitPdfByRanges_def using splitLoop_clipped [OF bpost, of src "[]"] by simp
  moreover have "splitPdfByRanges src ranges =
      Inr (map ?doc (filter ?keep pre) @ ?doc r # map ?doc (filter ?keep post))"
    unfolding splitPdfByRanges_def pos
    using splitLoop_clipped [OF below, of src "[]"] keep by (simp add: pos)
  moreover have "int (length (take (nat (endPage r - startPage r + 1))
                           (drop (nat (startPage r - 1)) src))) = endPage r - startPage r + 1"
    using valid by simp
  ultimately show ?thesis by (simp add: min)
qed

lemma splitPdfByRanges_from_page_one_example:
  "splitPdfByRanges fourPages
     [\<lparr> rangeName = ''Alice'', startPage = 1, endPage = 2 \<rparr>,
      \<lparr> rangeName = ''Bob'', startPage = 3, endPage = 2 \<rparr>]
   = Inr [\<lparr> docName = ''Alice'', blob = [''p1'', ''p2''] \<rparr>]"
proof -
  let ?alice = "\<lparr> rangeName = ''Alice'', startPage = 1, endPage = 2 \<rparr>"
  let ?bob = "\<lparr> rangeName = ''Bob'', startPage = 3, endPage = 2 \<rparr>"
  have below: "\<forall>q\<in>set [?alice, ?bob]. 1 \<le> startPage q \<or> endPage q < startPage q"
    by simp
  have pos: "[?alice, ?bob] = [] @ ?alice # [?bob]" by simp
  have valid: "1 \<le> startPage ?alice" "startPage ?alice \<le> endPage ?alice"
    "endPage ?alice \<le> int (length fourPages)"
    by (simp_all add: fourPages_def)
  have none: "splitPdfByRanges fourPages [] = Inr []"
    by (simp add: splitPdfByRanges_def)
  have bob: "splitPdfByRanges fourPages [?bob] = Inr []"
    by (simp add: splitPdfByRanges_def pageIndicesLoop.simps)
  have pages: "take (nat (endPage ?alice - startPage ?alice + 1))
                 (drop (nat (startPage ?alice - 1)) fourPages) = [''p1'', ''p2'']"
    by (simp add: fourPages_def)
  from splitPdfByRanges_from_page_one [OF below pos valid] none bob pages
  show ?thesis by auto
qed

text \<open>
  Under the same condition the split returns without error: a range with
  \<open>startPage > endPage\<close> or with \<open>startPage\<close> beyond the page count has no entry in the
  output, every other range has the pages from \<open>startPage\<close> to the smaller of \<open>endPage\<close>
  and the page count, and no document of the output is empty. The loop itself never
  collects an index at or beyond the page count.
\<close>

lemma splitPdfByRanges_clipped_from_page_one:
  "(\<forall>i\<in>set (pageIndicesLoop s e n []). i < n)
   \<and> (e < s \<longrightarrow> pageIndicesLoop s e n [] = [])
   \<and> ((\<forall>q\<in>set ranges. 1 \<le> startPage q \<or> endPage q < startPage q) \<longrightarrow>
        (\<exists>out. splitPdfByRanges src ranges = Inr out
           \<and> out = map (\<lambda>r. \<lparr> docName = rangeName r,
                                 blob = take (nat (min (endPage r) (int (length src)) - startPage r + 1))
                                          (drop (nat (startPage r - 1)) src) \<rparr>)
                        (filter (\<lambda>r. startPage r \<le> endPage r \<and> startPage r \<le> int (length src))
                           ranges)
           \<and> (\<forall>d\<in>set out. blob d \<noteq> [])))"
proof (intro conjI impI)
  show "\<forall>i\<in>set (pageIndicesLoop s e n []). i < n"
    by (auto simp: pageIndices_clipped)
  show "pageIndicesLoop s e n [] = []" if "e < s"
    using that by (simp add: pageIndices_clipped)
  show "\<exists>out. splitPdfByRanges src ranges = Inr out
           \<and> out = map (\<lambda>r. \<lparr> docName = rangeName r,
                                 blob = take (nat (min (endPage r) (int (length src)) - startPage r + 1))
                                          (drop (nat (startPage r - 1)) src) \<rparr>)
                        (filter (\<lambda>r. startPage r \<le> endPage r \<and> startPage r \<le> int (length src))
                           ranges)
           \<and> (\<forall>d\<in>set out. blob d \<noteq> [])"
    if below: "\<forall>q\<in>set ranges. 1 \<le> startPage q \<or> endPage q < startPage q"
  proof -
    have ne: "take (nat (min (endPage r) (int (length src)) - startPage r + 1))
                (drop (nat (startPage r - 1)) src) \<noteq> []"
      if "r \<in> set ranges" "startPage r \<le> endPage r" "startPage r \<le> int (length src)" for r
    proof -
      from that below have "1 \<le> startPage r" by auto
      with that show ?thesis by (auto simp: min_def)
    qed
    show ?thesis
      unfolding splitPdfByRanges_def
      using splitLoop_clipped [OF below, of src "[]"] ne by auto
  qed
qed

lemma splitPdfByRanges_clipped_from_page_one_example:
  "splitPdfByRanges fourPages
     [\<lparr> rangeName = ''Alice'', startPage = 2, endPage = 2 \<rparr>,
      \<lparr> rangeName = ''Bob'', startPage = 3, endPage = 9 \<rparr>,
      \<lparr> rangeName = ''Carol'', startPage = 5, endPage = 9 \<rparr>,
      \<lparr> rangeName = ''Dan'', startPage = 3, endPage = 2 \<rparr>]
   = Inr [\<lparr> docName = ''Alice'', blob = [''p2''] \<rparr>,
          \<lparr> docName = ''Bob'', blob = [''p3'', ''p4''] \<rparr>]
   \<and> pageIndicesLoop 3 9 4 [] = [2, 3]
   \<and> pageIndicesLoop 3 2 4 [] = []"
proof -
  let ?rs = "[\<lparr> rangeName = ''Alice'', startPage = 2, endPage = 2 \<rparr>,
      \<lparr> rangeName = ''Bob'', startPage = 3, endPage = 9 \<rparr>,
      \<lparr> rangeName = ''Carol'', startPage = 5, endPage = 9 \<rparr>,
      \<lparr> rangeName = ''Dan'', startPage = 3, endPage = 2 \<rparr>]"
  have below: "\<forall>q\<in>set ?rs. 1 \<le> startPage q \<or> endPage q < startPage q"
    by simp
  note t = splitPdfByRanges_clipped_from_page_one [of 3 2 4 ?rs fourPages]
  from t below have "splitPdfByRanges fourPages ?rs
     = Inr [\<lparr> docName = ''Alice'', blob = [''p2''] \<rparr>,
            \<lparr> docName = ''Bob'', blob = [''p3'', ''p4''] \<rparr>]"
    by (simp add: fourPages_def)
  moreover from t have "pageIndicesLoop 3 2 4 [] = []" by simp
  moreover have "pageIndicesLoop 3 9 4 [] = [2, 3]"
    by (simp add: pageIndicesLoop.simps)
  ultimately show ?thesis by simp
qed

text \<open>
  Claim C1 at a failing input. A source of four pages is split by the ranges Alice 1-2
  and Zed 0-1. Alice's range satisfies \<open>1 \<le> startPage \<le> endPage \<le> pageCount\<close>, but for
  Zed the loop collects the page index \<open>-1\<close> (the test of line 27 bounds the index from
  above only), \<^verbatim>\<open>copyPages\<close> throws, and the call returns no document for Alice, in
  either order of the two ranges.
\<close>

theorem splitPdfByRanges_valid_range_lost:
  "pageIndicesLoop 0 1 4 [] = [-1, 0]
   \<and> splitPdfByRanges fourPages
       [\<lparr> rangeName = ''Alice'', startPage = 1, endPage = 2 \<rparr>,
        \<lparr> rangeName = ''Zed'', startPage = 0, endPage = 1 \<rparr>]
     = Inl (TypeError ''Cannot read properties of undefined'')
   \<and> splitPdfByRanges fourPages
       [\<lparr> rangeName = ''Zed'', startPage = 0, endPage = 1 \<rparr>,
        \<lparr> rangeName = ''Alice'', startPage = 1, endPage = 2 \<rparr>]
     = Inl (TypeError ''Cannot read properties of undefined'')"
proof -
  have "pageIndicesLoop 0 1 4 [] = [-1, 0]"
    by code_simp
  moreover have "splitPdfByRanges fourPages
       [\<lparr> rangeName = ''Alice'', startPage = 1, endPage = 2 \<rparr>,
        \<lparr> rangeName = ''Zed'', startPage = 0, endPage = 1 \<rparr>]
     = Inl (TypeError ''Cannot read properties of undefined'')"
    by code_simp
  moreover have "splitPdfByRanges fourPages
       [\<lparr> rangeName = ''Zed'', startPage = 0, endPage = 1 \<rparr>,
        \<lparr> rangeName = ''Alice'', startPage = 1, endPage = 2 \<rparr>]
     = Inl (TypeError ''Cannot read properties of undefined'')"
    by code_simp
  ultimately show ?thesis by simp
qed

text \<open>
  Claim C2 at a failing input. The range Zed 0-0 has no valid page on a source of four
  pages, yet it is not omitted: the loop keeps the page index \<open>-1\<close>, which lies below
  the first page, and \<^verbatim>\<open>copyPages\<close> throws. Next to it the range Bob 3-9, which the
  upper bound clips to the pages 3 and 4, gets no document either.
\<close>

theorem splitPdfByRanges_lower_bound_not_clipped:
  "pageIndicesLoop 0 0 4 [] = [-1]
   \<and> splitPdfByRanges fourPages [\<lparr> rangeName = ''Zed'', startPage = 0, endPage = 0 \<rparr>]
     = Inl (TypeError ''Cannot read properties of undefined'')
   \<and> splitPdfByRanges fourPages
       [\<lparr> rangeName = ''Bob'', startPage = 3, endPage = 9 \<rparr>,
        \<lparr> rangeName = ''Zed'', startPage = 0, endPage = 0 \<rparr>]
     = Inl (TypeError ''Cannot read properties of undefined'')
   \<and> splitPdfByRanges fourPages [\<lparr> rangeName = ''Bob'', startPage = 3, endPage = 9 \<rparr>]
     = Inr [\<lparr> docName = ''Bob'', blob = [''p3'', ''p4''] \<rparr>]"
proof -
  have "pageIndicesLoop 0 0 4 [] = [-1]"
    by code_simp
  moreover have "splitPdfByRanges fourPages
       [\<lparr> rangeName = ''Zed'', startPage = 0, endPage = 0 \<rparr>]
     = Inl (TypeError ''Cannot read properties of undefined'')"
    by code_simp
  moreover have "splitPdfByRanges fourPages
       [\<lparr> rangeName = ''Bob'', startPage = 3, endPage = 9 \<rparr>,
        \<lparr> rangeName = ''Zed'', startPage = 0, endPage = 0 \<rparr>]
     = Inl (TypeError ''Cannot read properties of undefined'')"
    by code_simp
  moreover have "splitPdfByRanges fourPages
       [\<lparr> rangeName = ''Bob'', startPage = 3, endPage = 9 \<rparr>]
     = Inr [\<lparr> docName = ''Bob'', blob = [''p3'', ''p4''] \<rparr>]"
    by code_simp
  ultimately show ?thesis by simp
qed

section \<open>Facts about objects\<close>

lemma map_of_insertIndexed:
  "map_of al k = None \<Longrightarrow> map_of (insertIndexed n (k, v) al) = (map_of al)(k \<mapsto> v)"
  by (induction al) (auto simp: fun_eq_iff split: option.splits)

lemma map_of_append_new:
  "map_of al k = None \<Longrightarrow> map_of (al @ [(k, v)]) = (map_of al)(k \<mapsto> v)"
  by (induction al) (auto simp: fun_eq_iff split: option.splits)

lemma map_of_defineOwn: "map_of (defineOwn k v al) = (map_of al)(k \<mapsto> v)"
proof (cases "map_of al k")
  case None
  then show ?thesis
    by (cases "arrayIndex k")
       (simp_all add: defineOwn_def map_of_insertIndexed map_of_append_new del: map_of_append)
next
  case (Some g)
  then show ?thesis by (simp add: defineOwn_def update_conv')
qed

lemma gradeAt_spreadWith:
  "gradeAt (spreadWith obj k v) k' = (if k' = k then Some v else map_of (own obj) k')"
  by (simp add: gradeAt_def spreadWith_def map_of_defineOwn split: option.split)

lemma own_spreadWith: "map_of (own (spreadWith obj k v)) = (map_of (own obj))(k \<mapsto> v)"
  by (simp add: spreadWith_def map_of_defineOwn)

lemma gradeAt_assignGrade_same: "gradeAt (assignGrade k v obj) k = Some v"
  by (auto simp: gradeAt_def assignGrade_def map_of_defineOwn update_conv'
        split: option.splits)

lemma gradeAt_assignGrade_other:
  "k' \<noteq> k \<Longrightarrow> gradeAt (assignGrade k v obj) k' = gradeAt obj k'"
  by (auto simp: gradeAt_def assignGrade_def map_of_defineOwn update_conv'
        split: option.splits)

text \<open>An example of the enumeration order: the array index 2 goes before the index 10.\<close>

lemma defineOwn_example:
  "defineOwn ''2'' (1 :: nat) [(''10'', 2), (''x'', 3)] = [(''2'', 1), (''10'', 2), (''x'', 3)]
   \<and> defineOwn ''q2'' (1 :: nat) [(''10'', 2), (''x'', 3)] = [(''10'', 2), (''x'', 3), (''q2'', 1)]
   \<and> defineOwn ''x'' (1 :: nat) [(''10'', 2), (''x'', 3)] = [(''10'', 2), (''x'', 1)]"
  by code_simp

section \<open>Grade edits\<close>

lemma find_map_replace:
  assumes "find P xs = Some x" and "P u"
  shows "find P (map (\<lambda>s. if P s then u else s) xs) = Some u"
  using assms by (induction xs) (auto split: if_splits)

lemma selectedStudent_SomeD:
  assumes "selectedStudent v a = Some s"
  shows "v = Some (sid s) \<and> find (\<lambda>t. sid t = sid s) (students a) = Some s"
proof -
  from assms obtain i where v: "v = Some i" and f: "find (\<lambda>t. sid t = i) (students a) = Some s"
    by (auto simp: selectedStudent_def split: option.splits)
  from f have "sid s = i" by (auto simp: find_Some_iff)
  with v f show ?thesis by simp
qed

lemma selectedStudent_replace:
  assumes sel: "selectedStudent v a = Some s" and u: "sid u = sid s"
  shows "selectedStudent v
           (a\<lparr> students := map (\<lambda>t. if Some (sid t) = v then u else t) (students a) \<rparr>)
         = Some u"
proof -
  from selectedStudent_SomeD [OF sel]
  have v: "v = Some (sid s)" and f: "find (\<lambda>t. sid t = sid s) (students a) = Some s"
    by simp_all
  from find_map_replace [of "\<lambda>t. sid t = sid s" "students a" s u, OF f u]
  show ?thesis by (simp add: selectedStudent_def v)
qed

lemma handleGradeChange_selected:
  assumes sel: "selectedStudent v a = Some s"
  shows "handleGradeChange js v a q u =
           Some (a\<lparr> students := map (\<lambda>t. if Some (sid t) = v
               then s\<lparr> grades := (spreadWith (grades s) q
                         (mergeGrade (currentGradeOf (grades s) q)
                            (adjustGradeData js (find (\<lambda>r. rid r = q) (rubric a)) u))),
                       totalScore := sumScores (spreadWith (grades s) q
                         (mergeGrade (currentGradeOf (grades s) q)
                            (adjustGradeData js (find (\<lambda>r. rid r = q) (rubric a)) u))),
                       status := GRADED \<rparr>
               else t) (students a) \<rparr>)"
  using sel by (simp add: handleGradeChange_def Let_def)

lemma handleGradeChange_result:
  assumes sel: "selectedStudent v a = Some s"
  shows "\<exists>a'. handleGradeChange js v a q u = Some a'
           \<and> selectedStudent v a' =
               Some (s\<lparr> grades := (spreadWith (grades s) q
                         (mergeGrade (currentGradeOf (grades s) q)
                            (adjustGradeData js (find (\<lambda>r. rid r = q) (rubric a)) u))),
                       totalScore := sumScores (spreadWith (grades s) q
                         (mergeGrade (currentGradeOf (grades s) q)
                            (adjustGradeData js (find (\<lambda>r. rid r = q) (rubric a)) u))),
                       status := GRADED \<rparr>)"
  by (simp only: handleGradeChange_selected [OF sel] option.inject simp_thms ex_simps)
     (rule selectedStudent_replace [OF sel], simp)

text \<open>
  A grade edit for a question without a grade, when \<^verbatim>\<open>grades[questionId]\<close> is
  \<^verbatim>\<open>undefined\<close> or falsy: the assessment is replaced, the student's object gets the
  own property \<open>q\<close>, and its value is the default grade \<^verbatim>\<open>{ score: 0, comment: '' }\<close> merged
  with the edit.
\<close>

lemma handleGradeChange_missing_entry_default:
  assumes sel: "selectedStudent v a = Some s"
      and missing: "gradeAt (grades s) q = None"
      and plain: "\<not> inheritsTruthy (grades s) q"
  shows "\<exists>a' s' g.
           handleGradeChange js v a q u = Some a'
         \<and> selectedStudent v a' = Some s'
         \<and> map_of (own (grades s')) = (map_of (own (grades s)))(q \<mapsto> g)
         \<and> g = mergeGrade \<lparr> score = Some 0, comment = Some [], studentAnswer = None,
                             isAiSuggested = None \<rparr>
                  (adjustGradeData js (find (\<lambda>r. rid r = q) (rubric a)) u)
         \<and> comment g = Some (case u_comment u of Some c \<Rightarrow> c | None \<Rightarrow> [])
         \<and> isAiSuggested g = u_isAiSuggested u
         \<and> (u_studentAnswer u = None \<longrightarrow>
               studentAnswer g = None
             \<and> score g = Some (case u_score u of Some x \<Rightarrow> x | None \<Rightarrow> 0))"
proof -
  let ?g = "mergeGrade defaultGrade (adjustGradeData js (find (\<lambda>r. rid r = q) (rubric a)) u)"
  have cur: "currentGradeOf (grades s) q = defaultGrade"
    using missing plain by (simp add: currentGradeOf_def)
  from handleGradeChange_result [OF sel, of js q u]
  obtain a' where a': "handleGradeChange js v a q u = Some a'"
    and s': "selectedStudent v a' =
       Some (s\<lparr> grades := spreadWith (grades s) q ?g,
                totalScore := sumScores (spreadWith (grades s) q ?g),
                status := GRADED \<rparr>)"
    unfolding cur by (elim exE conjE) (rule that)
  have c: "comment ?g = Some (case u_comment u of Some c \<Rightarrow> c | None \<Rightarrow> [])"
    by (simp add: mergeGrade_def defaultGrade_def adjustGradeData_def Let_def
          split: option.splits)
  have i: "isAiSuggested ?g = u_isAiSuggested u"
    by (simp add: mergeGrade_def defaultGrade_def adjustGradeData_def Let_def
          split: option.splits)
  have n: "studentAnswer ?g = None
         \<and> score ?g = Some (case u_score u of Some x \<Rightarrow> x | None \<Rightarrow> 0)"
    if "u_studentAnswer u = None"
    using that
    by (simp add: mergeGrade_def defaultGrade_def adjustGradeData_def Let_def
          split: option.splits)
  show ?thesis
    using a' s' c i n by (auto simp: defaultGrade_def own_spreadWith)
qed


text \<open>
  Claim C9. The assessment \<^verbatim>\<open>handleGradeChange\<close> emits differs from the old one only in
  the entries of the students list that carry the selected id: \<^verbatim>\<open>id\<close>, \<^verbatim>\<open>title\<close>,
  \<^verbatim>\<open>description\<close>, \<^verbatim>\<open>status\<close>, \<^verbatim>\<open>rubric\<close>, \<^verbatim>\<open>cannedComments\<close> and \<^verbatim>\<open>created\<close> are
  the same, the list has the same length, and every other student is unchanged.
\<close>

theorem handleGradeChange_frame:
  assumes "handleGradeChange js v a q u = Some a'"
  shows "aid a' = aid a \<and> title a' = title a \<and> description a' = description a
       \<and> astatus a' = astatus a \<and> rubric a' = rubric a
       \<and> cannedComments a' = cannedComments a \<and> created a' = created a
       \<and> length (students a') = length (students a)
       \<and> (\<forall>i<length (students a).
             Some (sid (students a ! i)) \<noteq> v \<longrightarrow> students a' ! i = students a ! i)"
proof -
  from assms obtain s where sel: "selectedStudent v a = Some s"
    by (auto simp: handleGradeChange_def split: option.splits)
  from assms show ?thesis
    unfolding handleGradeChange_selected [OF sel] by auto
qed

theorem handleGradeChange_frame_witness:
  "\<exists>a'. handleGradeChange ascii (Some ''s1'') answeredClass ''q2'' (scoreEdit 8) = Some a'
      \<and> students a' ! 1 = students answeredClass ! 1
      \<and> rubric a' = rubric answeredClass
      \<and> cannedComments a' = cannedComments answeredClass
      \<and> title a' = ''Untitled Assessment''"
proof -
  have "handleGradeChange ascii (Some ''s1'') answeredClass ''q2'' (scoreEdit 8) \<noteq> None"
    by code_simp
  then obtain a'
    where a': "handleGradeChange ascii (Some ''s1'') answeredClass ''q2'' (scoreEdit 8) = Some a'"
    by blast
  have len: "1 < length (students answeredClass)" by code_simp
  have other: "Some (sid (students answeredClass ! 1)) \<noteq> Some ''s1''" by code_simp
  have t: "title answeredClass = ''Untitled Assessment''" by code_simp
  from handleGradeChange_frame [OF a'] len other t
  have "students a' ! 1 = students answeredClass ! 1 \<and> rubric a' = rubric answeredClass
      \<and> cannedComments a' = cannedComments answeredClass \<and> title a' = ''Untitled Assessment''"
    by simp
  with a' show ?thesis by blast
qed

section \<open>Applying AI grading results\<close>

lemma applyAiResult_other:
  "questionId res \<noteq> k \<Longrightarrow>
     gradeAt (fst (applyAiResult js rub st res)) k = gradeAt (fst st) k"
  by (simp add: applyAiResult_def Let_def gradeAt_assignGrade_other)

lemma foldl_applyAiResult_other:
  "\<forall>r\<in>set rs. questionId r \<noteq> k \<Longrightarrow>
     gradeAt (fst (foldl (applyAiResult js rub) st rs)) k = gradeAt (fst st) k"
  by (induction rs arbitrary: st) (simp_all add: applyAiResult_other)

lemma applyAiResult_same:
  "gradeAt (fst (applyAiResult js rub st res)) (questionId res) =
     Some \<lparr> score = Some (snd (applyAiResult js rub st res) - snd st),
            comment = Some (res_comment res),
            studentAnswer = res_studentAnswer res, isAiSuggested = Some True \<rparr>"
  by (simp add: applyAiResult_def Let_def gradeAt_assignGrade_same)

lemma applyAiResult_mcq:
  assumes "find (\<lambda>r. rid r = questionId res) rub = Some item"
      and "qtype item = MCQ" and "correctAnswer item = Some c" and "c \<noteq> []"
      and "res_studentAnswer res = Some ans" and "ans \<noteq> []"
  shows "snd (applyAiResult js rub st res) - snd st =
           (if toUpperCase js (trim js c) = toUpperCase js (trim js ans)
            then maxPoints item else 0)"
  using assms by (simp add: applyAiResult_def Let_def)

lemma runAiGrading_selected:
  assumes sel: "selectedStudent v a = Some s" and hasFile: "truthy (fileData s)"
  shows "runAiGrading js v a (Inr results) =
           Some (a\<lparr> students := map (\<lambda>t. if Some (sid t) = v
               then s\<lparr> grades := fst (foldl (applyAiResult js (rubric a))
                                         (\<lparr> own = own (grades s), proto = None \<rparr>, 0) results),
                       totalScore := Some (snd (foldl (applyAiResult js (rubric a))
                                         (\<lparr> own = own (grades s), proto = None \<rparr>, 0) results)),
                       status := GRADED \<rparr>
               else t) (students a) \<rparr>)"
  using sel hasFile by (simp add: runAiGrading_def Let_def case_prod_unfold)

lemma runAiGrading_result:
  assumes sel: "selectedStudent v a = Some s" and hasFile: "truthy (fileData s)"
  shows "\<exists>a'. runAiGrading js v a (Inr results) = Some a'
           \<and> selectedStudent v a' =
               Some (s\<lparr> grades := fst (foldl (applyAiResult js (rubric a))
                                         (\<lparr> own = own (grades s), proto = None \<rparr>, 0) results),
                       totalScore := Some (snd (foldl (applyAiResult js (rubric a))
                                         (\<lparr> own = own (grades s), proto = None \<rparr>, 0) results)),
                       status := GRADED \<rparr>)"
  by (simp only: runAiGrading_selected [OF sel hasFile] option.inject simp_thms ex_simps)
     (rule selectedStudent_replace [OF sel], simp)

text \<open>
  Claim C5 (amended). When the results of an AI grading run are applied to the selected
  student, take a result that no later result of the same answer repeats the
  \<^verbatim>\<open>questionId\<close> of, whose rubric item is multiple-choice with a non-empty
  \<^verbatim>\<open>correctAnswer\<close>, and which carries a non-empty \<^verbatim>\<open>studentAnswer\<close>. The grade that
  \<^verbatim>\<open>grades[questionId]\<close> yields afterwards has a score that does not depend on the score
  the result suggests: it is \<^verbatim>\<open>maxPoints\<close> when the trimmed, upper-cased letters are equal
  and 0 otherwise. The comment and the answer are stored as the result gives them, and
  the grade is flagged as suggested by the AI.
\<close>

theorem runAiGrading_rederives_mcq:
  assumes sel: "selectedStudent v a = Some s" and hasFile: "truthy (fileData s)"
      and last: "results = pre @ res # post" "\<forall>r\<in>set post. questionId r \<noteq> questionId res"
      and item: "find (\<lambda>r. rid r = questionId res) (rubric a) = Some item" "qtype item = MCQ"
      and key: "correctAnswer item = Some c" "c \<noteq> []"
      and ans: "res_studentAnswer res = Some ans" "ans \<noteq> []"
  shows "\<exists>a' s'. runAiGrading js v a (Inr results) = Some a'
           \<and> selectedStudent v a' = Some s'
           \<and> gradeAt (grades s') (questionId res) =
               Some \<lparr> score = Some (if toUpperCase js (trim js c) = toUpperCase js (trim js ans)
                                     then maxPoints item else 0),
                      comment = Some (res_comment res), studentAnswer = Some ans,
                      isAiSuggested = Some True \<rparr>"
proof -
  let ?f = "applyAiResult js (rubric a)"
  let ?init = "(\<lparr> own = own (grades s), proto = None \<rparr>, 0 :: int)"
  let ?st = "foldl ?f ?init pre"
  have "gradeAt (fst (foldl ?f ?init results)) (questionId res)
          = gradeAt (fst (?f ?st res)) (questionId res)"
    using last by (simp add: foldl_applyAiResult_other)
  also have "\<dots> = Some \<lparr> score = Some (if toUpperCase js (trim js c) = toUpperCase js (trim js ans)
                                     then maxPoints item else 0),
                      comment = Some (res_comment res), studentAnswer = Some ans,
                      isAiSuggested = Some True \<rparr>"
    by (simp only: applyAiResult_same applyAiResult_mcq [OF item key ans] ans)
  finally have stored: "gradeAt (fst (foldl ?f ?init results)) (questionId res)
       = Some \<lparr> score = Some (if toUpperCase js (trim js c) = toUpperCase js (trim js ans)
                                     then maxPoints item else 0),
                      comment = Some (res_comment res), studentAnswer = Some ans,
                      isAiSuggested = Some True \<rparr>" .
  from runAiGrading_result [OF sel hasFile, of js results] stored show ?thesis
    by auto
qed

theorem runAiGrading_rederives_mcq_witness:
  "\<exists>a' s'. runAiGrading ascii (Some ''s1'') classroom
        (Inr [\<lparr> questionId = ''q1'', res_score = 3, res_comment = ''ok'',
                 res_studentAnswer = Some ''b'' \<rparr>,
              \<lparr> questionId = ''q2'', res_score = 7, res_comment = ''fair'',
                 res_studentAnswer = None \<rparr>]) = Some a'
      \<and> selectedStudent (Some ''s1'') a' = Some s'
      \<and> gradeAt (grades s') ''q1'' =
          Some \<lparr> score = Some 5, comment = Some ''ok'', studentAnswer = Some ''b'',
                 isAiSuggested = Some True \<rparr>"
proof -
  let ?r1 = "\<lparr> questionId = ''q1'', res_score = 3, res_comment = ''ok'',
                 res_studentAnswer = Some ''b'' \<rparr>"
  let ?r2 = "\<lparr> questionId = ''q2'', res_score = 7, res_comment = ''fair'',
                 res_studentAnswer = None \<rparr>"
  have sel: "selectedStudent (Some ''s1'') classroom = Some (newStudent ''s1'' ''Alice'')"
    by (simp add: selectedStudent_def classroom_def newStudent_def)
  have hasFile: "truthy (fileData (newStudent ''s1'' ''Alice''))"
    by (simp add: newStudent_def)
  have last: "[?r1, ?r2] = [] @ ?r1 # [?r2]" "\<forall>r\<in>set [?r2]. questionId r \<noteq> questionId ?r1"
    by simp_all
  have item: "find (\<lambda>r. rid r = questionId ?r1) (rubric classroom) = Some mcqItem"
    "qtype mcqItem = MCQ"
    by (simp_all add: classroom_def mcqItem_def)
  have key: "correctAnswer mcqItem = Some ''B''" "''B'' \<noteq> []"
    by (simp_all add: mcqItem_def)
  have ans: "res_studentAnswer ?r1 = Some ''b''" "''b'' \<noteq> []"
    by simp_all
  have same: "toUpperCase ascii (trim ascii ''B'') = toUpperCase ascii (trim ascii ''b'')"
    by code_simp
  have pts: "maxPoints mcqItem = 5" by (simp add: mcqItem_def)
  from runAiGrading_rederives_mcq [OF sel hasFile last item key ans, of ascii] same pts
  show ?thesis by simp
qed

text \<open>
  Claim C5 as stated fails for a result that a later result overwrites. The model
  answers twice for \<open>q1\<close>, a 5-point multiple-choice item with the key B: first with the
  student's answer b, then without an answer and with the score 3. The first result
  meets the conditions of the claim, and the grade stored for \<open>q1\<close> has the score 3 that
  the model suggested.
\<close>

theorem repeated_result_counterexample:
  "rubricItemOf classroom ''q1'' = Some mcqItem
   \<and> qtype mcqItem = MCQ \<and> correctAnswer mcqItem = Some ''B'' \<and> maxPoints mcqItem = 5
   \<and> gradeOf (step ascii (Some ''s1'') classroom
        (AiGradingDone classroom
           (Inr [\<lparr> questionId = ''q1'', res_score = 3, res_comment = ''ok'',
                    res_studentAnswer = Some ''b'' \<rparr>,
                 \<lparr> questionId = ''q1'', res_score = 3, res_comment = ''again'',
                    res_studentAnswer = None \<rparr>]))) ''s1'' ''q1''
     = Some \<lparr> score = Some 3, comment = Some ''again'', studentAnswer = None,
              isAiSuggested = Some True \<rparr>"
proof -
  have "rubricItemOf classroom ''q1'' = Some mcqItem"
    by code_simp
  moreover have "qtype mcqItem = MCQ \<and> correctAnswer mcqItem = Some ''B''
      \<and> maxPoints mcqItem = 5"
    by (simp add: mcqItem_def)
  moreover have "gradeOf (step ascii (Some ''s1'') classroom
        (AiGradingDone classroom
           (Inr [\<lparr> questionId = ''q1'', res_score = 3, res_comment = ''ok'',
                    res_studentAnswer = Some ''b'' \<rparr>,
                 \<lparr> questionId = ''q1'', res_score = 3, res_comment = ''again'',
                    res_studentAnswer = None \<rparr>]))) ''s1'' ''q1''
     = Some \<lparr> score = Some 3, comment = Some ''again'', studentAnswer = None,
              isAiSuggested = Some True \<rparr>"
    by code_simp
  ultimately show ?thesis by simp
qed

section \<open>Multiple-choice scoring\<close>

lemma find_map_same_test:
  assumes "find P xs = Some x" and "\<And>y. P (f y) = P y"
  shows "find P (map f xs) = Some (f x)"
  using assms by (induction xs) (auto split: if_splits)

lemma selectedStudent_students:
  assumes sel: "selectedStudent v a = Some s"
      and st: "students a' = map (\<lambda>t. if sid t = sid s then u else t) (students a)"
      and u: "sid u = sid s"
  shows "selectedStudent v a' = Some u"
proof -
  from selectedStudent_SomeD [OF sel]
  have v: "v = Some (sid s)" and f: "find (\<lambda>t. sid t = sid s) (students a) = Some s"
    by simp_all
  from find_map_replace [of "\<lambda>t. sid t = sid s" "students a" s u, OF f u]
  show ?thesis by (simp add: selectedStudent_def v st)
qed

lemma handleKeyChange_selected:
  assumes sel: "selectedStudent v a = Some s"
      and item: "find (\<lambda>r. rid r = q) (rubric a) = Some item"
      and g0: "gradeAt (grades s) q = Some g0"
      and ans: "studentAnswer g0 = Some ans" "ans \<noteq> []"
  shows "handleKeyChange js v a q k =
           Some (a\<lparr> rubric := map (\<lambda>r. if rid r = q
                                         then r\<lparr> correctAnswer := Some (toUpperCase js k) \<rparr>
                                         else r) (rubric a),
                    students := map (\<lambda>t. if sid t = sid s
                       then s\<lparr> grades := spreadWith (grades s) q
                                 (g0\<lparr> score := Some (if toUpperCase js (trim js ans)
                                                          = toUpperCase js (trim js k)
                                                       then maxPoints item else 0) \<rparr>),
                               totalScore := sumScores (spreadWith (grades s) q
                                 (g0\<lparr> score := Some (if toUpperCase js (trim js ans)
                                                          = toUpperCase js (trim js k)
                                                       then maxPoints item else 0) \<rparr>)) \<rparr>
                       else t) (students a) \<rparr>)"
proof -
  have "find (\<lambda>r. rid r = q)
          (map (\<lambda>r. if rid r = q then r\<lparr> correctAnswer := Some (toUpperCase js k) \<rparr> else r)
             (rubric a))
        = Some ((\<lambda>r. if rid r = q then r\<lparr> correctAnswer := Some (toUpperCase js k) \<rparr> else r)
                  item)"
    by (rule find_map_same_test [OF item]) simp
  then show ?thesis
    using sel g0 ans by (simp add: handleKeyChange_def Let_def)
qed

lemma adjustGradeData_mcq:
  assumes "qtype item = MCQ" and "correctAnswer item = Some c" and "c \<noteq> []"
      and "u_studentAnswer u = Some (Some ans)"
  shows "adjustGradeData js (Some item) u =
           u\<lparr> u_score := Some (if toUpperCase js (trim js ans) = toUpperCase js (trim js c)
                                then maxPoints item else 0),
              u_studentAnswer := Some (Some (toUpperCase js (trim js ans))) \<rparr>"
  using assms by (simp add: adjustGradeData_def Let_def)

text \<open>
  Claim C4 (amended). Let a student be selected and let the question have a rubric
  item. When an edit sets the answer letter of a multiple-choice item with a non-empty
  \<^verbatim>\<open>correctAnswer\<close>, the selected student's grade for the item stores the trimmed,
  upper-cased letter, and its score is \<^verbatim>\<open>maxPoints\<close> if that letter equals the trimmed,
  upper-cased key and 0 otherwise. When the key of the item is changed and the selected
  student's grade for it has a non-empty \<^verbatim>\<open>studentAnswer\<close>, the rubric stores the
  upper-cased new key and the selected student's score for the item is \<^verbatim>\<open>maxPoints\<close> if
  the letters match and 0 otherwise; every student with another id is left as it was.
  This holds for whatever \<^verbatim>\<open>trim\<close> and \<^verbatim>\<open>toUpperCase\<close> compute.
\<close>

theorem mcq_score_of_selected_student:
  assumes sel: "selectedStudent v a = Some s"
      and item: "find (\<lambda>r. rid r = q) (rubric a) = Some item"
  shows "(qtype item = MCQ \<and> correctAnswer item = Some c \<and> c \<noteq> []
            \<and> u_studentAnswer u = Some (Some ans) \<longrightarrow>
          (\<exists>a' s' g. handleGradeChange js v a q u = Some a'
             \<and> selectedStudent v a' = Some s' \<and> gradeAt (grades s') q = Some g
             \<and> studentAnswer g = Some (toUpperCase js (trim js ans))
             \<and> score g = Some (if toUpperCase js (trim js ans) = toUpperCase js (trim js c)
                                then maxPoints item else 0)))
       \<and> (gradeAt (grades s) q = Some g0 \<and> studentAnswer g0 = Some ans \<and> ans \<noteq> [] \<longrightarrow>
          (\<exists>a' s' g. handleKeyChange js v a q newKey = Some a'
             \<and> rubricItemOf a' q = Some (item\<lparr> correctAnswer := Some (toUpperCase js newKey) \<rparr>)
             \<and> selectedStudent v a' = Some s' \<and> gradeAt (grades s') q = Some g
             \<and> studentAnswer g = Some ans
             \<and> score g = Some (if toUpperCase js (trim js ans) = toUpperCase js (trim js newKey)
                                then maxPoints item else 0)
             \<and> length (students a') = length (students a)
             \<and> (\<forall>i<length (students a).
                   sid (students a ! i) \<noteq> sid s \<longrightarrow> students a' ! i = students a ! i)))"
proof (intro conjI impI)
  assume h: "qtype item = MCQ \<and> correctAnswer item = Some c \<and> c \<noteq> []
            \<and> u_studentAnswer u = Some (Some ans)"
  let ?g = "mergeGrade (currentGradeOf (grades s) q)
              (adjustGradeData js (find (\<lambda>r. rid r = q) (rubric a)) u)"
  from h have adj: "adjustGradeData js (find (\<lambda>r. rid r = q) (rubric a)) u =
           u\<lparr> u_score := Some (if toUpperCase js (trim js ans) = toUpperCase js (trim js c)
                                then maxPoints item else 0),
              u_studentAnswer := Some (Some (toUpperCase js (trim js ans))) \<rparr>"
    unfolding item by (intro adjustGradeData_mcq) simp_all
  have g: "studentAnswer ?g = Some (toUpperCase js (trim js ans))
         \<and> score ?g = Some (if toUpperCase js (trim js ans) = toUpperCase js (trim js c)
                          then maxPoints item else 0)"
    by (simp add: adj mergeGrade_def)
  from handleGradeChange_result [OF sel, of js q u]
  obtain a' where a': "handleGradeChange js v a q u = Some a'"
    and s': "selectedStudent v a' =
       Some (s\<lparr> grades := spreadWith (grades s) q ?g,
                totalScore := sumScores (spreadWith (grades s) q ?g),
                status := GRADED \<rparr>)"
    by (elim exE conjE) (rule that)
  have "gradeAt (grades (s\<lparr> grades := spreadWith (grades s) q ?g,
                totalScore := sumScores (spreadWith (grades s) q ?g),
                status := GRADED \<rparr>)) q = Some ?g"
    by (simp add: gradeAt_spreadWith)
  with a' s' g
  show "\<exists>a' s' g. handleGradeChange js v a q u = Some a'
             \<and> selectedStudent v a' = Some s' \<and> gradeAt (grades s') q = Some g
             \<and> studentAnswer g = Some (toUpperCase js (trim js ans))
             \<and> score g = Some (if toUpperCase js (trim js ans) = toUpperCase js (trim js c)
                          then maxPoints item else 0)"
    by blast
next
  assume h: "gradeAt (grades s) q = Some g0 \<and> studentAnswer g0 = Some ans \<and> ans \<noteq> []"
  let ?g = "g0\<lparr> score := Some (if toUpperCase js (trim js ans) = toUpperCase js (trim js newKey)
                                then maxPoints item else 0) \<rparr>"
  let ?u = "s\<lparr> grades := spreadWith (grades s) q ?g,
               totalScore := sumScores (spreadWith (grades s) q ?g) \<rparr>"
  let ?a' = "a\<lparr> rubric := map (\<lambda>r. if rid r = q
                                       then r\<lparr> correctAnswer := Some (toUpperCase js newKey) \<rparr>
                                       else r) (rubric a),
                 students := map (\<lambda>t. if sid t = sid s then ?u else t) (students a) \<rparr>"
  from h have a': "handleKeyChange js v a q newKey = Some ?a'"
    by (intro handleKeyChange_selected [OF sel item]) simp_all
  from item have q: "rid item = q" by (auto simp: find_Some_iff)
  have r: "rubricItemOf ?a' q = Some (item\<lparr> correctAnswer := Some (toUpperCase js newKey) \<rparr>)"
    using find_map_same_test [OF item,
        of "\<lambda>r. if rid r = q then r\<lparr> correctAnswer := Some (toUpperCase js newKey) \<rparr> else r"]
    by (simp add: rubricItemOf_def q)
  have s': "selectedStudent v ?a' = Some ?u"
    by (rule selectedStudent_students [OF sel]) simp_all
  have g: "gradeAt (grades ?u) q = Some ?g" by (simp add: gradeAt_spreadWith)
  have ga: "studentAnswer ?g = Some ans" using h by simp
  have sc: "score ?g = Some (if toUpperCase js (trim js ans) = toUpperCase js (trim js newKey)
                          then maxPoints item else 0)" by simp
  have fr: "length (students ?a') = length (students a)
             \<and> (\<forall>i<length (students a).
                   sid (students a ! i) \<noteq> sid s \<longrightarrow> students ?a' ! i = students a ! i)"
    by simp
  from a' r s' g ga sc fr
  show "\<exists>a' s' g. handleKeyChange js v a q newKey = Some a'
             \<and> rubricItemOf a' q = Some (item\<lparr> correctAnswer := Some (toUpperCase js newKey) \<rparr>)
             \<and> selectedStudent v a' = Some s' \<and> gradeAt (grades s') q = Some g
             \<and> studentAnswer g = Some ans
             \<and> score g = Some (if toUpperCase js (trim js ans) = toUpperCase js (trim js newKey)
                          then maxPoints item else 0)
             \<and> length (students a') = length (students a)
             \<and> (\<forall>i<length (students a).
                   sid (students a ! i) \<noteq> sid s \<longrightarrow> students a' ! i = students a ! i)"
    by blast
qed

theorem mcq_score_of_selected_student_witness:
  "(\<exists>a' s' g. handleGradeChange ascii (Some ''s1'') classroom ''q1'' (answerEdit ''b'') = Some a'
       \<and> selectedStudent (Some ''s1'') a' = Some s' \<and> gradeAt (grades s') ''q1'' = Some g
       \<and> studentAnswer g = Some ''B'' \<and> score g = Some 5)
   \<and> (\<exists>a' s' g. handleKeyChange ascii (Some ''s1'') answeredClass ''q1'' ''c'' = Some a'
       \<and> rubricItemOf a' ''q1'' = Some (mcqItem\<lparr> correctAnswer := Some ''C'' \<rparr>)
       \<and> selectedStudent (Some ''s1'') a' = Some s' \<and> gradeAt (grades s') ''q1'' = Some g
       \<and> studentAnswer g = Some ''B'' \<and> score g = Some 0)"
proof -
  let ?g0 = "\<lparr> score = Some 5, comment = Some [], studentAnswer = Some ''B'',
               isAiSuggested = None \<rparr>"
  let ?alice = "(newStudent ''s1'' ''Alice'')
                  \<lparr> grades := \<lparr> own = [(''q1'', ?g0)], proto = None \<rparr>, status := GRADED,
                    totalScore := Some 5 \<rparr>"
  have sel0: "selectedStudent (Some ''s1'') classroom = Some (newStudent ''s1'' ''Alice'')"
    by (simp add: selectedStudent_def classroom_def newStudent_def)
  have item0: "find (\<lambda>r. rid r = ''q1'') (rubric classroom) = Some mcqItem"
    by (simp add: classroom_def mcqItem_def)
  have mcq: "qtype mcqItem = MCQ \<and> correctAnswer mcqItem = Some ''B'' \<and> ''B'' \<noteq> []
           \<and> u_studentAnswer (answerEdit ''b'') = Some (Some ''b'')"
    by (simp add: mcqItem_def answerEdit_def)
  have up: "toUpperCase ascii (trim ascii ''b'') = ''B''"
    "toUpperCase ascii (trim ascii ''B'') = ''B''"
    "toUpperCase ascii (trim ascii ''c'') = ''C''" "toUpperCase ascii ''c'' = ''C''"
    by code_simp+
  have pts: "maxPoints mcqItem = 5" by (simp add: mcqItem_def)
  from mcq_score_of_selected_student [OF sel0 item0, of "''B''" "answerEdit ''b''" "''b''" ascii]
    mcq
  have first: "\<exists>a' s' g. handleGradeChange ascii (Some ''s1'') classroom ''q1'' (answerEdit ''b'')
         = Some a'
       \<and> selectedStudent (Some ''s1'') a' = Some s' \<and> gradeAt (grades s') ''q1'' = Some g
       \<and> studentAnswer g = Some ''B'' \<and> score g = Some 5"
    by (simp add: up pts)
  have sel1: "selectedStudent (Some ''s1'') answeredClass = Some ?alice"
    by code_simp
  have item1: "find (\<lambda>r. rid r = ''q1'') (rubric answeredClass) = Some mcqItem"
    by code_simp
  have ans: "gradeAt (grades ?alice) ''q1'' = Some ?g0 \<and> studentAnswer ?g0 = Some ''B''
           \<and> ''B'' \<noteq> []"
    by (simp add: gradeAt_def)
  from mcq_score_of_selected_student [OF sel1 item1, where ?g0.0 = ?g0 and ans = "''B''"
      and newKey = "''c''" and js = ascii] ans
  have second: "\<exists>a' s' g. handleKeyChange ascii (Some ''s1'') answeredClass ''q1'' ''c'' = Some a'
       \<and> rubricItemOf a' ''q1'' = Some (mcqItem\<lparr> correctAnswer := Some ''C'' \<rparr>)
       \<and> selectedStudent (Some ''s1'') a' = Some s' \<and> gradeAt (grades s') ''q1'' = Some g
       \<and> studentAnswer g = Some ''B'' \<and> score g = Some 0"
    by (simp add: up pts) blast
  from first second show ?thesis by (rule conjI)
qed

text \<open>
  Claim C4 as stated fails for a student that is not selected. Alice and Bob have both
  answered B on the 5-point item \<open>q1\<close> with key B. With Alice selected the key is
  changed to C: the rubric now holds C, and Bob's grade still has the answer B and the
  score 5, although B and C differ.
\<close>

theorem key_change_other_student_counterexample:
  "rubricItemOf (step ascii (Some ''s1'') answeredClass (KeyChange ''q1'' ''c'')) ''q1''
     = Some (mcqItem\<lparr> correctAnswer := Some ''C'' \<rparr>)
   \<and> gradeOf (step ascii (Some ''s1'') answeredClass (KeyChange ''q1'' ''c'')) ''s2'' ''q1''
     = Some \<lparr> score = Some 5, comment = Some [], studentAnswer = Some ''B'',
              isAiSuggested = None \<rparr>
   \<and> toUpperCase ascii (trim ascii ''B'') \<noteq> toUpperCase ascii (trim ascii ''C'')
   \<and> maxPoints mcqItem = 5 \<and> qtype mcqItem = MCQ"
proof -
  have "rubricItemOf (step ascii (Some ''s1'') answeredClass (KeyChange ''q1'' ''c'')) ''q1''
     = Some (mcqItem\<lparr> correctAnswer := Some ''C'' \<rparr>)"
    by code_simp
  moreover have "gradeOf (step ascii (Some ''s1'') answeredClass (KeyChange ''q1'' ''c''))
       ''s2'' ''q1''
     = Some \<lparr> score = Some 5, comment = Some [], studentAnswer = Some ''B'',
              isAiSuggested = None \<rparr>"
    by code_simp
  moreover have "toUpperCase ascii (trim ascii ''B'') \<noteq> toUpperCase ascii (trim ascii ''C'')"
    by code_simp
  moreover have "maxPoints mcqItem = 5 \<and> qtype mcqItem = MCQ"
    by (simp add: mcqItem_def)
  ultimately show ?thesis by simp
qed

section \<open>The status of a student\<close>

lemma pendingUngraded_iff:
  "pendingUngraded a \<longleftrightarrow>
     (\<forall>s\<in>set (students a). status s = PENDING \<longrightarrow> grades s = emptyGrades)"
  by (simp add: pendingUngraded_def list_all_iff)

lemma status_cases: "st = PENDING \<or> st = GRADED"
  by (cases st) simp_all

lemma find_map_None:
  assumes "find P xs = None" and "\<And>y. P (f y) = P y"
  shows "find P (map f xs) = None"
  using assms by (induction xs) (auto split: if_splits)

lemma handleKeyChange_cases:
  "(\<exists>s item g0 ans. selectedStudent v a = Some s
        \<and> find (\<lambda>r. rid r = q) (rubric a) = Some item
        \<and> gradeAt (grades s) q = Some g0 \<and> studentAnswer g0 = Some ans \<and> ans \<noteq> [])
   \<or> (\<exists>a'. handleKeyChange js v a q k = Some a' \<and> students a' = students a)"
proof (cases "selectedStudent v a")
  case None
  then show ?thesis by (simp add: handleKeyChange_def Let_def)
next
  case sel: (Some s)
  show ?thesis
  proof (cases "gradeAt (grades s) q")
    case None
    with sel show ?thesis
      by (simp add: handleKeyChange_def Let_def split: option.split)
  next
    case g0: (Some g0)
    show ?thesis
    proof (cases "truthy (studentAnswer g0)")
      case False
      with sel g0 show ?thesis
        by (simp add: handleKeyChange_def Let_def split: option.split)
    next
      case True
      then obtain ans where ans: "studentAnswer g0 = Some ans" "ans \<noteq> []"
        by (cases "studentAnswer g0") simp_all
      show ?thesis
      proof (cases "find (\<lambda>r. rid r = q) (rubric a)")
        case None
        have "find (\<lambda>r. rid r = q)
                (map (\<lambda>r. if rid r = q then r\<lparr> correctAnswer := Some (toUpperCase js k) \<rparr>
                           else r)
                   (rubric a)) = None"
          by (rule find_map_None [OF None]) simp
        with sel g0 show ?thesis
          by (simp add: handleKeyChange_def Let_def)
      next
        case (Some item)
        with sel g0 ans show ?thesis by blast
      qed
    qed
  qed
qed

lemma replace_graded:
  assumes inv: "pendingUngraded a"
      and st: "students a' = map f (students a)"
      and f: "\<And>t. t \<in> set (students a) \<Longrightarrow>
                (status (f t) = status t \<and> grades (f t) = grades t) \<or> status (f t) = GRADED"
  shows "pendingUngraded a' \<and> length (students a') = length (students a)
       \<and> (\<forall>i<length (students a).
             status (students a ! i) = GRADED \<longrightarrow> status (students a' ! i) = GRADED)"
proof (intro conjI allI impI)
  show "pendingUngraded a'"
    unfolding pendingUngraded_iff st
  proof (intro ballI impI)
    fix s' assume "s' \<in> set (map f (students a))" and p: "status s' = PENDING"
    then obtain t where t: "t \<in> set (students a)" and s': "s' = f t" by auto
    from f [OF t] p s' have "status t = PENDING \<and> grades (f t) = grades t" by auto
    with inv t s' show "grades s' = emptyGrades" by (auto simp: pendingUngraded_iff)
  qed
  show "length (students a') = length (students a)" by (simp add: st)
  fix i assume i: "i < length (students a)" and g: "status (students a ! i) = GRADED"
  from i have "students a ! i \<in> set (students a)" by simp
  from f [OF this] g i show "status (students a' ! i) = GRADED" by (auto simp: st)
qed

lemma same_students_graded:
  assumes inv: "pendingUngraded a" and st: "students a' = students a"
  shows "pendingUngraded a' \<and> length (students a') = length (students a)
       \<and> (\<forall>i<length (students a).
             status (students a ! i) = GRADED \<longrightarrow> status (students a' ! i) = GRADED)"
  using inv by (simp add: st pendingUngraded_def)

lemma gradeAt_emptyGrades: "gradeAt emptyGrades q = None"
  by (simp add: gradeAt_def emptyGrades_def)

lemma step_keeps_graded:
  assumes inv: "pendingUngraded a" and cur: "startedOnCurrent a ev"
  shows "pendingUngraded (step js v a ev)
       \<and> length (students (step js v a ev)) = length (students a)
       \<and> (\<forall>i<length (students a).
             status (students a ! i) = GRADED \<longrightarrow>
             status (students (step js v a ev) ! i) = GRADED)"
proof (cases ev)
  case (GradeChange q u)
  show ?thesis
  proof (cases "selectedStudent v a")
    case None
    then have "step js v a ev = a"
      by (simp add: step_def GradeChange handleGradeChange_def afterUpdate_def)
    then show ?thesis using same_students_graded [OF inv, of a] by simp
  next
    case (Some s)
    let ?g = "mergeGrade (currentGradeOf (grades s) q)
                (adjustGradeData js (find (\<lambda>r. rid r = q) (rubric a)) u)"
    let ?u = "s\<lparr> grades := spreadWith (grades s) q ?g,
                 totalScore := sumScores (spreadWith (grades s) q ?g),
                 status := GRADED \<rparr>"
    have st: "students (step js v a ev)
                = map (\<lambda>t. if Some (sid t) = v then ?u else t) (students a)"
      by (simp add: step_def GradeChange handleGradeChange_selected [OF Some] afterUpdate_def)
    show ?thesis
      by (rule replace_graded [OF inv st]) simp
  qed
next
  case (KeyChange q k)
  from handleKeyChange_cases [of v a q js k] show ?thesis
  proof
    assume "\<exists>s item g0 ans. selectedStudent v a = Some s
        \<and> find (\<lambda>r. rid r = q) (rubric a) = Some item
        \<and> gradeAt (grades s) q = Some g0 \<and> studentAnswer g0 = Some ans \<and> ans \<noteq> []"
    then obtain s item g0 ans where sel: "selectedStudent v a = Some s"
      and item: "find (\<lambda>r. rid r = q) (rubric a) = Some item"
      and g0: "gradeAt (grades s) q = Some g0"
      and ans: "studentAnswer g0 = Some ans" "ans \<noteq> []"
      by blast
    let ?g = "g0\<lparr> score := Some (if toUpperCase js (trim js ans) = toUpperCase js (trim js k)
                                  then maxPoints item else 0) \<rparr>"
    let ?u = "s\<lparr> grades := spreadWith (grades s) q ?g,
                 totalScore := sumScores (spreadWith (grades s) q ?g) \<rparr>"
    have st: "students (step js v a ev)
                = map (\<lambda>t. if sid t = sid s then ?u else t) (students a)"
      by (simp add: step_def KeyChange handleKeyChange_selected [OF sel item g0 ans]
            afterUpdate_def)
    from selectedStudent_SomeD [OF sel] have "s \<in> set (students a)"
      by (auto simp: find_Some_iff)
    moreover from g0 have "grades s \<noteq> emptyGrades" by (auto simp: gradeAt_emptyGrades)
    ultimately have "status s \<noteq> PENDING"
      using inv by (auto simp: pendingUngraded_iff)
    then have "status ?u = GRADED" using status_cases [of "status s"] by simp
    then show ?thesis
      by (intro replace_graded [OF inv st]) simp
  next
    assume "\<exists>a'. handleKeyChange js v a q k = Some a' \<and> students a' = students a"
    then have "students (step js v a ev) = students a"
      by (auto simp: step_def KeyChange afterUpdate_def)
    with inv show ?thesis by (rule same_students_graded)
  qed
next
  case (AiGradingDone snapshot out)
  with cur have snap: "snapshot = a" by simp
  show ?thesis
  proof (cases "\<exists>s results. selectedStudent v a = Some s \<and> truthy (fileData s)
                   \<and> out = Inr results")
    case True
    then obtain s results where sel: "selectedStudent v a = Some s"
      and hasFile: "truthy (fileData s)" and out: "out = Inr results"
      by blast
    let ?r = "foldl (applyAiResult js (rubric a)) (\<lparr> own = own (grades s), proto = None \<rparr>, 0)
                results"
    let ?u = "s\<lparr> grades := fst ?r, totalScore := Some (snd ?r), status := GRADED \<rparr>"
    have st: "students (step js v a ev)
                = map (\<lambda>t. if Some (sid t) = v then ?u else t) (students a)"
      by (simp add: step_def AiGradingDone snap out runAiGrading_selected [OF sel hasFile]
            afterUpdate_def)
    show ?thesis
      by (rule replace_graded [OF inv st]) simp
  next
    case False
    then have "step js v a ev = a"
      by (auto simp: step_def AiGradingDone snap runAiGrading_def afterUpdate_def
            split: option.splits sum.splits)
    then show ?thesis using same_students_graded [OF inv, of a] by simp
  qed
next
  case (AddCanned t)
  have "students (step js v a ev) = students a"
    by (simp add: step_def AddCanned addCannedComment_def afterUpdate_def)
  with inv show ?thesis by (rule same_students_graded)
qed

lemma run_keeps_graded:
  assumes inv: "pendingUngraded a" and un: "uninterrupted js a evs"
  shows "pendingUngraded (run js a evs)
       \<and> length (students (run js a evs)) = length (students a)
       \<and> (\<forall>i<length (students a).
             status (students a ! i) = GRADED \<longrightarrow>
             status (students (run js a evs) ! i) = GRADED)"
  using inv un
proof (induction evs arbitrary: a)
  case Nil
  then show ?case by simp
next
  case (Cons e evs)
  obtain v ev where e: "e = (v, ev)" by (cases e)
  from Cons.prems have cur: "startedOnCurrent a ev"
    and rest: "uninterrupted js (step js v a ev) evs"
    by (simp_all add: e)
  from step_keeps_graded [OF Cons.prems(1) cur, of js v]
  have one: "pendingUngraded (step js v a ev)"
    "length (students (step js v a ev)) = length (students a)"
    "\<forall>i<length (students a). status (students a ! i) = GRADED \<longrightarrow>
        status (students (step js v a ev) ! i) = GRADED"
    by simp_all
  from Cons.IH [OF one(1) rest]
  have more: "pendingUngraded (run js (step js v a ev) evs)"
    "length (students (run js (step js v a ev) evs)) = length (students (step js v a ev))"
    "\<forall>i<length (students (step js v a ev)).
        status (students (step js v a ev) ! i) = GRADED \<longrightarrow>
        status (students (run js (step js v a ev) evs) ! i) = GRADED"
    by simp_all
  from one more show ?case by (simp add: e)
qed

lemma distinct_sid_nth:
  assumes d: "distinct (map sid xs)" and s: "s \<in> set xs" and i: "i < length xs"
      and same: "sid (xs ! i) = sid s"
  shows "xs ! i = s"
proof -
  from d have "inj_on sid (set xs)" by (simp add: distinct_map)
  moreover from i have "xs ! i \<in> set xs" by simp
  ultimately show ?thesis using s same by (auto dest: inj_onD)
qed

text \<open>
  Only a grade edit or an AI grading run with results, for the selected student, leads
  from pending to graded.
\<close>

lemma step_pending_to_graded:
  assumes d: "distinct (map sid (students a))" and cur: "startedOnCurrent a ev"
      and i: "i < length (students a)"
      and before: "status (students a ! i) = PENDING"
      and after: "status (students (step js v a ev) ! i) = GRADED"
  shows "v = Some (sid (students a ! i)) \<and> marksGraded ev"
proof (cases ev)
  case (GradeChange q u)
  show ?thesis
  proof (cases "selectedStudent v a")
    case None
    then have "step js v a ev = a"
      by (simp add: step_def GradeChange handleGradeChange_def afterUpdate_def)
    with before after show ?thesis by simp
  next
    case (Some s)
    have "students (step js v a ev)
            = map (\<lambda>t. if Some (sid t) = v
                 then s\<lparr> grades := spreadWith (grades s) q
                           (mergeGrade (currentGradeOf (grades s) q)
                              (adjustGradeData js (find (\<lambda>r. rid r = q) (rubric a)) u)),
                         totalScore := sumScores (spreadWith (grades s) q
                           (mergeGrade (currentGradeOf (grades s) q)
                              (adjustGradeData js (find (\<lambda>r. rid r = q) (rubric a)) u))),
                         status := GRADED \<rparr>
                 else t) (students a)"
      by (simp add: step_def GradeChange handleGradeChange_selected [OF Some] afterUpdate_def)
    with i before after show ?thesis
      by (auto simp: GradeChange split: if_splits)
  qed
next
  case (KeyChange q k)
  from handleKeyChange_cases [of v a q js k] show ?thesis
  proof
    assume "\<exists>s item g0 ans. selectedStudent v a = Some s
        \<and> find (\<lambda>r. rid r = q) (rubric a) = Some item
        \<and> gradeAt (grades s) q = Some g0 \<and> studentAnswer g0 = Some ans \<and> ans \<noteq> []"
    then obtain s item g0 ans where sel: "selectedStudent v a = Some s"
      and item: "find (\<lambda>r. rid r = q) (rubric a) = Some item"
      and g0: "gradeAt (grades s) q = Some g0"
      and ans: "studentAnswer g0 = Some ans" "ans \<noteq> []"
      by blast
    from selectedStudent_SomeD [OF sel] have mem: "s \<in> set (students a)"
      by (auto simp: find_Some_iff)
    have st: "students (step js v a ev)
            = map (\<lambda>t. if sid t = sid s
                 then s\<lparr> grades := spreadWith (grades s) q
                           (g0\<lparr> score := Some (if toUpperCase js (trim js ans)
                                                    = toUpperCase js (trim js k)
                                                 then maxPoints item else 0) \<rparr>),
                         totalScore := sumScores (spreadWith (grades s) q
                           (g0\<lparr> score := Some (if toUpperCase js (trim js ans)
                                                    = toUpperCase js (trim js k)
                                                 then maxPoints item else 0) \<rparr>)) \<rparr>
                 else t) (students a)"
      by (simp add: step_def KeyChange handleKeyChange_selected [OF sel item g0 ans]
            afterUpdate_def)
    show ?thesis
    proof (cases "sid (students a ! i) = sid s")
      case True
      from distinct_sid_nth [OF d mem i True] have "students a ! i = s" .
      with st i True before after show ?thesis by simp
    next
      case False
      with st i before after show ?thesis by simp
    qed
  next
    assume "\<exists>a'. handleKeyChange js v a q k = Some a' \<and> students a' = students a"
    then have "students (step js v a ev) = students a"
      by (auto simp: step_def KeyChange afterUpdate_def)
    with before after show ?thesis by simp
  qed
next
  case (AiGradingDone snapshot out)
  with cur have snap: "snapshot = a" by simp
  show ?thesis
  proof (cases "\<exists>s results. selectedStudent v a = Some s \<and> truthy (fileData s)
                   \<and> out = Inr results")
    case True
    then obtain s results where sel: "selectedStudent v a = Some s"
      and hasFile: "truthy (fileData s)" and out: "out = Inr results"
      by blast
    have "students (step js v a ev)
            = map (\<lambda>t. if Some (sid t) = v
               then s\<lparr> grades := fst (foldl (applyAiResult js (rubric a))
                                         (\<lparr> own = own (grades s), proto = None \<rparr>, 0) results),
                       totalScore := Some (snd (foldl (applyAiResult js (rubric a))
                                         (\<lparr> own = own (grades s), proto = None \<rparr>, 0) results)),
                       status := GRADED \<rparr>
               else t) (students a)"
      by (simp add: step_def AiGradingDone snap out runAiGrading_selected [OF sel hasFile]
            afterUpdate_def)
    with i before after show ?thesis
      by (auto simp: AiGradingDone out split: if_splits)
  next
    case False
    then have "step js v a ev = a"
      by (auto simp: step_def AiGradingDone snap runAiGrading_def afterUpdate_def
            split: option.splits sum.splits)
    with before after show ?thesis by simp
  qed
next
  case (AddCanned t)
  have "students (step js v a ev) = students a"
    by (simp add: step_def AddCanned addCannedComment_def afterUpdate_def)
  with before after show ?thesis by simp
qed

text \<open>
  Claim C6 (amended). A student's status is \<open>PENDING\<close> or \<open>GRADED\<close>. Start from an
  assessment in which pending students have the empty object as grades, as
  \<^verbatim>\<open>StudentSetup\<close> creates them, and take a sequence of events (grade edits, key changes,
  AI grading runs, canned comments) in which every AI grading run completes before the
  next event. Then the students list keeps its length and every student that was graded
  is still graded. A grade edit leaves the selected student graded, and so does an AI
  grading run for a selected student with a file that returns results, also when it
  returns no result at all. When the students have distinct ids, a student that one
  event takes from pending to graded is the student selected in that event, and the
  event is a grade edit or an AI grading run that returned results.
\<close>

theorem status_one_way:
  assumes inv: "pendingUngraded a" and un: "uninterrupted js a evs"
  shows "(\<forall>s\<in>set (students (run js a evs)). status s = PENDING \<or> status s = GRADED)
       \<and> length (students (run js a evs)) = length (students a)
       \<and> (\<forall>i<length (students a).
             status (students a ! i) = GRADED \<longrightarrow>
             status (students (run js a evs) ! i) = GRADED)
       \<and> pendingUngraded (run js a evs)
       \<and> (\<forall>s. selectedStudent sel a = Some s \<longrightarrow>
             (\<exists>s'. selectedStudent sel (step js sel a (GradeChange q u)) = Some s'
                   \<and> status s' = GRADED))
       \<and> (\<forall>s. selectedStudent sel a = Some s \<and> truthy (fileData s) \<longrightarrow>
             (\<exists>s'. selectedStudent sel (step js sel a (AiGradingDone a (Inr results))) = Some s'
                   \<and> status s' = GRADED))
       \<and> (distinct (map sid (students a)) \<and> startedOnCurrent a ev \<longrightarrow>
             (\<forall>i<length (students a).
                 status (students a ! i) = PENDING
                 \<and> status (students (step js sel a ev) ! i) = GRADED \<longrightarrow>
                 sel = Some (sid (students a ! i)) \<and> marksGraded ev))"
proof -
  have two_valued: "\<forall>s\<in>set (students (run js a evs)). status s = PENDING \<or> status s = GRADED"
    by (simp add: status_cases)
  have manual: "\<exists>s'. selectedStudent sel (step js sel a (GradeChange q u)) = Some s'
                   \<and> status s' = GRADED"
    if sel: "selectedStudent sel a = Some s" for s
    using handleGradeChange_result [OF sel, of js q u]
    by (auto simp: step_def afterUpdate_def)
  have ai: "\<exists>s'. selectedStudent sel (step js sel a (AiGradingDone a (Inr results))) = Some s'
                   \<and> status s' = GRADED"
    if sel: "selectedStudent sel a = Some s" and hasFile: "truthy (fileData s)" for s
    using runAiGrading_result [OF sel hasFile, of js results]
    by (auto simp: step_def afterUpdate_def)
  have only: "sel = Some (sid (students a ! i)) \<and> marksGraded ev"
    if "distinct (map sid (students a))" "startedOnCurrent a ev" "i < length (students a)"
       "status (students a ! i) = PENDING" "status (students (step js sel a ev) ! i) = GRADED"
    for i
    using that by (rule step_pending_to_graded)
  from two_valued run_keeps_graded [OF inv un] manual ai only show ?thesis
    by blast
qed

theorem status_one_way_witness:
  "(\<exists>s'. selectedStudent (Some ''s1'')
            (step ascii (Some ''s1'') classroom (GradeChange ''q1'' (answerEdit ''b''))) = Some s'
         \<and> status s' = GRADED)
   \<and> (\<exists>s'. selectedStudent (Some ''s1'')
            (step ascii (Some ''s1'') classroom (AiGradingDone classroom (Inr []))) = Some s'
         \<and> status s' = GRADED)
   \<and> status (students (run ascii answeredClass
                [(Some ''s2'', AiGradingDone answeredClass (Inr [])),
                 (Some ''s1'', KeyChange ''q1'' ''c''),
                 (Some ''s1'', AddCanned ''Well argued.'')]) ! 0) = GRADED
   \<and> status (students (step ascii (Some ''s1'') classroom (KeyChange ''q1'' ''c'')) ! 1)
       = PENDING"
proof -
  have inv0: "pendingUngraded classroom" by code_simp
  have un0: "uninterrupted ascii classroom []" by simp
  have sel: "selectedStudent (Some ''s1'') classroom = Some (newStudent ''s1'' ''Alice'')"
    by (simp add: selectedStudent_def classroom_def newStudent_def)
  have hasFile: "truthy (fileData (newStudent ''s1'' ''Alice''))"
    by (simp add: newStudent_def)
  have d: "distinct (map sid (students classroom))" by code_simp
  have cur: "startedOnCurrent classroom (KeyChange ''q1'' ''c'')" by simp
  have len0: "1 < length (students classroom)" by code_simp
  have pending: "status (students classroom ! 1) = PENDING" by code_simp
  have notMarked: "\<not> marksGraded (KeyChange ''q1'' ''c'')" by simp
  note first = status_one_way [OF inv0 un0, of "Some ''s1''" "''q1''" "answerEdit ''b''" "[]"
      "KeyChange ''q1'' ''c''"]
  from first sel
  have edit: "\<exists>s'. selectedStudent (Some ''s1'')
            (step ascii (Some ''s1'') classroom (GradeChange ''q1'' (answerEdit ''b''))) = Some s'
         \<and> status s' = GRADED"
    by blast
  from first sel hasFile
  have ai: "\<exists>s'. selectedStudent (Some ''s1'')
            (step ascii (Some ''s1'') classroom (AiGradingDone classroom (Inr []))) = Some s'
         \<and> status s' = GRADED"
    by blast
  from first d cur len0 pending notMarked
  have "status (students (step ascii (Some ''s1'') classroom (KeyChange ''q1'' ''c'')) ! 1)
          \<noteq> GRADED"
    by blast
  then have still: "status (students (step ascii (Some ''s1'') classroom
                                       (KeyChange ''q1'' ''c'')) ! 1) = PENDING"
    using status_cases by blast
  have inv1: "pendingUngraded answeredClass" by code_simp
  have un1: "uninterrupted ascii answeredClass
                [(Some ''s2'', AiGradingDone answeredClass (Inr [])),
                 (Some ''s1'', KeyChange ''q1'' ''c''),
                 (Some ''s1'', AddCanned ''Well argued.'')]"
    by code_simp
  have len: "0 < length (students answeredClass)" by code_simp
  have graded: "status (students answeredClass ! 0) = GRADED" by code_simp
  from status_one_way [OF inv1 un1, of None "[]" "scoreEdit 0" "[]" "AddCanned []"]
    len graded
  have kept: "status (students (run ascii answeredClass
                [(Some ''s2'', AiGradingDone answeredClass (Inr [])),
                 (Some ''s1'', KeyChange ''q1'' ''c''),
                 (Some ''s1'', AddCanned ''Well argued.'')]) ! 0) = GRADED"
    by blast
  from edit ai kept still show ?thesis by blast
qed

text \<open>
  Claim C6 as stated fails when an AI grading run is overtaken by another event. The run
  is started for Alice while nobody is graded. Before the model answers, Bob is selected
  and gets a grade, which marks him as graded. Then the answer arrives, with no results:
  the handler replaces the assessment by the one it was started from with Alice marked
  as graded, so Bob is pending again. Alice is graded although no grade was stored for
  her.
\<close>

theorem stale_ai_run_counterexample:
  "map status (students (run ascii classroom
       [(Some ''s2'', GradeChange ''q1'' (answerEdit ''B''))])) = [PENDING, GRADED]
   \<and> map status (students (run ascii classroom
       [(Some ''s2'', GradeChange ''q1'' (answerEdit ''B'')),
        (Some ''s1'', AiGradingDone classroom (Inr []))])) = [GRADED, PENDING]
   \<and> map grades (students (run ascii classroom
       [(Some ''s2'', GradeChange ''q1'' (answerEdit ''B'')),
        (Some ''s1'', AiGradingDone classroom (Inr []))])) = [emptyGrades, emptyGrades]"
proof -
  have "map status (students (run ascii classroom
       [(Some ''s2'', GradeChange ''q1'' (answerEdit ''B''))])) = [PENDING, GRADED]"
    by code_simp
  moreover have "map status (students (run ascii classroom
       [(Some ''s2'', GradeChange ''q1'' (answerEdit ''B'')),
        (Some ''s1'', AiGradingDone classroom (Inr []))])) = [GRADED, PENDING]"
    by code_simp
  moreover have "map grades (students (run ascii classroom
       [(Some ''s2'', GradeChange ''q1'' (answerEdit ''B'')),
        (Some ''s1'', AiGradingDone classroom (Inr []))])) = [emptyGrades, emptyGrades]"
    by code_simp
  ultimately show ?thesis by simp
qed

section \<open>The total score\<close>

lemma addScore_simps:
  "addScore None g = None"
  "addScore (Some a) g = (case score g of None \<Rightarrow> None | Some b \<Rightarrow> Some (a + b))"
  by (simp_all add: addScore_def)

lemma foldl_addScore_None: "foldl addScore None xs = None"
  by (induction xs) (simp_all add: addScore_simps)

lemma foldl_addScore:
  "foldl addScore (Some a) xs =
     (if list_all (\<lambda>g. score g \<noteq> None) xs
      then Some (a + sum_list (map (\<lambda>g. the (score g)) xs)) else None)"
proof (induction xs arbitrary: a)
  case Nil
  show ?case by simp
next
  case (Cons g xs)
  show ?case
  proof (cases "score g")
    case None
    then show ?thesis by (simp add: addScore_simps foldl_addScore_None)
  next
    case (Some b)
    then show ?thesis by (simp add: addScore_simps Cons.IH)
  qed
qed

text \<open>
  The sum over \<^verbatim>\<open>Object.values\<close> is the sum of the scores when every grade has one, and
  \<^verbatim>\<open>NaN\<close> otherwise.
\<close>

lemma sumScores_sum_list:
  "sumScores obj =
     (if list_all (\<lambda>g. score g \<noteq> None) (map snd (own obj))
      then Some (sum_list (map (\<lambda>g. the (score g)) (map snd (own obj)))) else None)"
  by (simp add: sumScores_def foldl_addScore)

lemma handleGradeChange_total:
  assumes sel: "selectedStudent v a = Some s"
  shows "\<exists>a' s'. handleGradeChange js v a q u = Some a' \<and> selectedStudent v a' = Some s'
           \<and> totalScore s' = sumScores (grades s')"
  using handleGradeChange_result [OF sel, of js q u] by auto

lemma handleKeyChange_total:
  assumes sel: "selectedStudent v a = Some s"
      and item: "find (\<lambda>r. rid r = q) (rubric a) = Some item"
      and g0: "gradeAt (grades s) q = Some g0"
      and ans: "studentAnswer g0 = Some ans" "ans \<noteq> []"
  shows "\<exists>a' s'. handleKeyChange js v a q k = Some a' \<and> selectedStudent v a' = Some s'
           \<and> totalScore s' = sumScores (grades s')"
proof -
  let ?g = "g0\<lparr> score := Some (if toUpperCase js (trim js ans) = toUpperCase js (trim js k)
                                then maxPoints item else 0) \<rparr>"
  let ?u = "s\<lparr> grades := spreadWith (grades s) q ?g,
               totalScore := sumScores (spreadWith (grades s) q ?g) \<rparr>"
  let ?a' = "a\<lparr> rubric := map (\<lambda>r. if rid r = q
                                       then r\<lparr> correctAnswer := Some (toUpperCase js k) \<rparr>
                                       else r) (rubric a),
                 students := map (\<lambda>t. if sid t = sid s then ?u else t) (students a) \<rparr>"
  have a': "handleKeyChange js v a q k = Some ?a'"
    by (rule handleKeyChange_selected [OF sel item g0 ans])
  have s': "selectedStudent v ?a' = Some ?u"
    by (rule selectedStudent_students [OF sel]) simp_all
  have "totalScore ?u = sumScores (grades ?u)"
    by simp
  with a' s' show ?thesis by blast
qed

text \<open>
  Claim C3 at a failing input. Alice has the grade 5 on \<open>q1\<close>; an AI grading run
  returns one result, 7 points on \<open>q2\<close>. Afterwards her mapping holds both grades (sum
  12) and her \<^verbatim>\<open>totalScore\<close> is 7: \<^verbatim>\<open>runAiGrading\<close> adds up the scores of the results
  only, while \<^verbatim>\<open>handleGradeChange\<close> and \<^verbatim>\<open>handleKeyChange\<close> sum the whole mapping
  (\<open>handleGradeChange_total\<close>, \<open>handleKeyChange_total\<close>). Bob, not selected, is
  unchanged (total 5, sum 5).
\<close>

theorem runAiGrading_total_mismatch:
  "totals (step ascii (Some ''s1'') answeredClass
             (AiGradingDone answeredClass
                (Inr [\<lparr> questionId = ''q2'', res_score = 7, res_comment = ''fair'',
                         res_studentAnswer = None \<rparr>])))
     = [(Some 7, Some 12), (Some 5, Some 5)]"
  by code_simp

end
